theory Spec2Isabelle
  imports Complex_Main "HOL-Library.AList"
begin

section \<open>The checkout simulator of server.js\<close>

text \<open>
  The program is an Express server with six routes over two in-memory \<^verbatim>\<open>Map\<close>s,
  \<^verbatim>\<open>orders\<close> and \<^verbatim>\<open>payments\<close>. Each route is embedded as a function from the request,
  the readings it takes from its environment (clock and random source) and the two maps
  to the response and the new maps.

  Conventions of the embedding:
  \<^item> A route handler and the timer callback it schedules with \<^verbatim>\<open>setTimeout\<close> are one
    step: the response records the delay after which it is sent, and the effects of the
    callback are applied in the same step. The interleaving of other requests between a
    handler and its own callback is not modelled.
  \<^item> \<^verbatim>\<open>Math.random()\<close> is a reading of type \<open>real\<close>; its contract, \<open>0 \<le> r < 1\<close>, is a
    hypothesis where it matters. Arithmetic on it is exact, not IEEE double arithmetic.
  \<^item> \<^verbatim>\<open>Date.now()\<close> and \<^verbatim>\<open>new Date()\<close> are readings of type \<open>nat\<close>, milliseconds since
    the epoch. \<^verbatim>\<open>toISOString()\<close> is kept as the instant it renders.
  \<^item> \<^verbatim>\<open>Math.random().toString(36)\<close> renders a double in base 36 by an algorithm the
    language leaves to the implementation; its text is a reading of type \<open>string\<close>.
  \<^item> Strings are byte lists; the non-ASCII literals of the source are their UTF-8 bytes.
\<close>

subsection \<open>JavaScript values of a parsed request body\<close>

datatype jsval =
    JUndefined
  | JNull
  | JBool bool
  | JNum real
  | JStr string
  | JArr "jsval list"
  | JObj "(string \<times> jsval) list"

text \<open>Truthiness, as \<^verbatim>\<open>||\<close> and \<^verbatim>\<open>!\<close> test it. Objects and arrays are always truthy.\<close>

fun truthy :: "jsval \<Rightarrow> bool" where
  "truthy JUndefined = False"
| "truthy JNull = False"
| "truthy (JBool b) = b"
| "truthy (JNum x) = (x \<noteq> 0)"
| "truthy (JStr s) = (s \<noteq> [])"
| "truthy (JArr xs) = True"
| "truthy (JObj kvs) = True"

text \<open>\<^verbatim>\<open>a || b\<close>\<close>

definition js_or :: "jsval \<Rightarrow> jsval \<Rightarrow> jsval" where
  "js_or a b = (if truthy a then a else b)"

subsection \<open>Text\<close>

definition digit_char :: "nat \<Rightarrow> char" where
  "digit_char d = ''0123456789'' ! d"

text \<open>The decimal text of a non-negative integer, as a template literal renders it.\<close>

fun decimal :: "nat \<Rightarrow> string" where
  "decimal n = (if n < 10 then [digit_char n] else decimal (n div 10) @ [digit_char (n mod 10)])"

declare decimal.simps [simp del]

text \<open>\<^verbatim>\<open>s.substr(start, len)\<close> for non-negative arguments.\<close>

definition substr :: "string \<Rightarrow> nat \<Rightarrow> nat \<Rightarrow> string" where
  "substr s start len = take len (drop start s)"

definition default_subject :: string where
  "default_subject =
     [CHR 0xE7, CHR 0xBD, CHR 0x97, CHR 0xE6, CHR 0x8A, CHR 0x80, CHR 0xE5, CHR 0xA4, CHR 0xA7,
      CHR 0xE5, CHR 0xB8, CHR 0x88, CHR 0xE7, CHR 0xB3, CHR 0xBB, CHR 0xE5, CHR 0x88, CHR 0x97]
     @ ''MX Master 3s'' @
     [CHR 0xE6, CHR 0x97, CHR 0xA0, CHR 0xE7, CHR 0xBA, CHR 0xBF, CHR 0xE8, CHR 0x93, CHR 0x9D,
      CHR 0xE7, CHR 0x89, CHR 0x99, CHR 0xE5, CHR 0x8F, CHR 0x8C, CHR 0xE6, CHR 0xA8, CHR 0xA1,
      CHR 0xE9, CHR 0xBC, CHR 0xA0, CHR 0xE6, CHR 0xA0, CHR 0x87]"

definition default_bankName :: string where
  "default_bankName =
     [CHR 0xE4, CHR 0xB8, CHR 0xAD, CHR 0xE5, CHR 0x9B, CHR 0xBD, CHR 0xE5, CHR 0xBB, CHR 0xBA,
      CHR 0xE8, CHR 0xAE, CHR 0xBE, CHR 0xE9, CHR 0x93, CHR 0xB6, CHR 0xE8, CHR 0xA1, CHR 0x8C]"

definition msg_created :: string where
  "msg_created =
     [CHR 0xE8, CHR 0xAE, CHR 0xA2, CHR 0xE5, CHR 0x8D, CHR 0x95, CHR 0xE5, CHR 0x88, CHR 0x9B,
      CHR 0xE5, CHR 0xBB, CHR 0xBA, CHR 0xE6, CHR 0x88, CHR 0x90, CHR 0xE5, CHR 0x8A, CHR 0x9F]"

definition msg_not_found :: string where
  "msg_not_found =
     [CHR 0xE8, CHR 0xAE, CHR 0xA2, CHR 0xE5, CHR 0x8D, CHR 0x95, CHR 0xE4, CHR 0xB8, CHR 0x8D,
      CHR 0xE5, CHR 0xAD, CHR 0x98, CHR 0xE5, CHR 0x9C, CHR 0xA8]"

definition msg_wrong_password :: string where
  "msg_wrong_password =
     [CHR 0xE6, CHR 0x94, CHR 0xAF, CHR 0xE4, CHR 0xBB, CHR 0x98, CHR 0xE5, CHR 0xAF, CHR 0x86,
      CHR 0xE7, CHR 0xA0, CHR 0x81, CHR 0xE9, CHR 0x94, CHR 0x99, CHR 0xE8, CHR 0xAF, CHR 0xAF]"

definition msg_paid :: string where
  "msg_paid =
     [CHR 0xE6, CHR 0x94, CHR 0xAF, CHR 0xE4, CHR 0xBB, CHR 0x98, CHR 0xE6, CHR 0x88, CHR 0x90,
      CHR 0xE5, CHR 0x8A, CHR 0x9F]"

definition msg_security :: string where
  "msg_security =
     [CHR 0xE5, CHR 0xAE, CHR 0x89, CHR 0xE5, CHR 0x85, CHR 0xA8, CHR 0xE8, CHR 0xAE, CHR 0xBE,
      CHR 0xE7, CHR 0xBD, CHR 0xAE, CHR 0xE6, CHR 0xA3, CHR 0x80, CHR 0xE6, CHR 0xB5, CHR 0x8B,
      CHR 0xE6, CHR 0x88, CHR 0x90, CHR 0xE5, CHR 0x8A, CHR 0x9F, CHR 0xEF, CHR 0xBC, CHR 0x81]"

subsection \<open>Orders, payments and the two stores\<close>

datatype order_status = Pending | Success

text \<open>An ISO-8601 timestamp, kept as the millisecond instant it renders.\<close>

type_synonym isotime = nat

text \<open>
  The order object of \<^verbatim>\<open>/api/payment/create\<close>. The property \<^verbatim>\<open>payTime\<close> does not exist
  on a new order (\<open>None\<close>); \<^verbatim>\<open>/api/payment/validate\<close> adds it.
\<close>

record order =
  orderId :: string
  amount :: jsval
  subject :: jsval
  bankCard :: jsval
  bankName :: string
  status :: order_status
  createTime :: isotime
  payTime :: "isotime option"

record payment =
  paymentId :: string
  pay_orderId :: string
  pay_amount :: jsval
  pay_status :: order_status
  pay_payTime :: "isotime option"

text \<open>
  A JavaScript \<^verbatim>\<open>Map\<close> with string keys: an association list in insertion order.
  \<^verbatim>\<open>set\<close> on a key already present replaces its value where it stands, and a new key
  goes to the end; that is \<open>AList.update\<close>.
\<close>

type_synonym 'v js_map = "(string \<times> 'v) list"

definition Map_set :: "string \<Rightarrow> 'v \<Rightarrow> 'v js_map \<Rightarrow> 'v js_map" where
  "Map_set k v m = AList.update k v m"

text \<open>
  \<^verbatim>\<open>get\<close> compares keys with SameValueZero: a key that is not a string equals none of the
  stored keys.
\<close>

fun Map_get :: "'v js_map \<Rightarrow> jsval \<Rightarrow> 'v option" where
  "Map_get m (JStr k) = map_of m k"
| "Map_get m _ = None"

definition Map_size :: "'v js_map \<Rightarrow> nat" where
  "Map_size m = length m"

record state =
  orders :: "order js_map"
  payments :: "payment js_map"

definition init :: state where
  "init = \<lparr>orders = [], payments = []\<rparr>"

subsection \<open>Readings of the environment\<close>

record env =
  Date_now :: nat        \<comment> \<open>\<^verbatim>\<open>Date.now()\<close>\<close>
  new_Date :: isotime    \<comment> \<open>\<^verbatim>\<open>new Date().toISOString()\<close>\<close>
  random_text :: string  \<comment> \<open>\<^verbatim>\<open>Math.random().toString(36)\<close> in \<^verbatim>\<open>generateOrderId\<close>\<close>
  random_fail :: real    \<comment> \<open>\<^verbatim>\<open>Math.random()\<close> compared with 0.05\<close>
  random_delay :: real   \<comment> \<open>\<^verbatim>\<open>Math.random()\<close> of the delay\<close>

text \<open>The contract of \<^verbatim>\<open>Math.random()\<close>.\<close>

definition is_random :: "real \<Rightarrow> bool" where
  "is_random r = (0 \<le> r \<and> r < 1)"

subsection \<open>Responses\<close>

datatype data =
    NoData
  | NullData
  | OrderData order
  | PaymentData payment
  | QueryData string order_status jsval "isotime option"
  | SecurityData bool string

datatype body =
    Envelope (success: bool) (code: nat) (message: "string option") (data: data)
  | StatsBody (totalOrders: nat) (totalPayments: nat) (successRate: real)

text \<open>
  \<open>delay = None\<close>: the response is sent by the handler itself; \<open>delay = Some d\<close>: it is
  sent by a timer callback after \<open>d\<close> milliseconds.
\<close>

record response =
  http_status :: nat
  delay :: "real option"
  body :: body

definition not_found :: response where
  "not_found = \<lparr>http_status = 404, delay = None,
     body = Envelope False 404 (Some msg_not_found) NoData\<rparr>"

subsection \<open>The routes\<close>

text \<open>\<^verbatim>\<open>`ORDER${Date.now()}${Math.random().toString(36).substr(2, 9)}`\<close>\<close>

definition generateOrderId :: "env \<Rightarrow> string" where
  "generateOrderId e = ''ORDER'' @ decimal (Date_now e) @ substr (random_text e) 2 9"

text \<open>The fields read from the body of \<^verbatim>\<open>POST /api/payment/create\<close>; a missing field is
  \<open>JUndefined\<close>.\<close>

record create_body =
  b_amount :: jsval
  b_subject :: jsval
  b_bankCard :: jsval

definition createOrder :: "create_body \<Rightarrow> env \<Rightarrow> state \<Rightarrow> response \<times> state" where
  "createOrder b e s =
     (let oid = generateOrderId e;
          order = \<lparr>orderId = oid,
                   amount = js_or (b_amount b) (JNum 579),
                   subject = js_or (b_subject b) (JStr default_subject),
                   bankCard = js_or (b_bankCard b) (JStr ''****7061''),
                   bankName = default_bankName,
                   status = Pending,
                   createTime = new_Date e,
                   payTime = None\<rparr>;
          s' = s\<lparr>orders := Map_set oid order (orders s)\<rparr>;
          d = random_delay e * 150 + 50
      in (\<lparr>http_status = 200, delay = Some d,
            body = Envelope True 0 (Some msg_created) (OrderData order)\<rparr>, s'))"

definition getOrderInfo :: "string \<Rightarrow> env \<Rightarrow> state \<Rightarrow> response \<times> state" where
  "getOrderInfo oid e s =
     (case Map_get (orders s) (JStr oid) of
        None \<Rightarrow> (not_found, s)
      | Some order \<Rightarrow>
          (let d = random_delay e * 100 + 30
           in (\<lparr>http_status = 200, delay = Some d,
                 body = Envelope True 0 None (OrderData order)\<rparr>, s)))"

text \<open>
  \<^verbatim>\<open>POST /api/payment/validate\<close>, after the order was found under the key \<open>k\<close>: the
  handler takes its two random readings, and the timer callback either rejects, or
  mutates the order object (here: replaces it under its key, where it stands) and stores
  a payment under \<^verbatim>\<open>`PAY${Date.now()}`\<close>.
\<close>

definition validate_found :: "string \<Rightarrow> order \<Rightarrow> jsval \<Rightarrow> env \<Rightarrow> state \<Rightarrow> response \<times> state" where
  "validate_found k order password e s =
     (let isValidPassword = (password = JStr ''123456'');
          randomFail = (random_fail e < 5 / 100);
          d = random_delay e * 400 + 100
      in if randomFail \<or> \<not> isValidPassword
         then (\<lparr>http_status = 200, delay = Some d,
                body = Envelope False 1001 (Some msg_wrong_password) NullData\<rparr>, s)
         else
           (let order' = order\<lparr>status := Success, payTime := Some (new_Date e)\<rparr>;
                p = \<lparr>paymentId = ''PAY'' @ decimal (Date_now e),
                     pay_orderId = k,
                     pay_amount = amount order',
                     pay_status = Success,
                     pay_payTime = payTime order'\<rparr>;
                s' = \<lparr>orders = Map_set k order' (orders s),
                      payments = Map_set (paymentId p) p (payments s)\<rparr>
            in (\<lparr>http_status = 200, delay = Some d,
                  body = Envelope True 0 (Some msg_paid) (PaymentData p)\<rparr>, s')))"

text \<open>
  The handler looks the order up first and answers 404 at once when there is none. The
  \<^verbatim>\<open>orderId\<close> of the body is any JSON value; only a string can be a key of the store.
\<close>

fun validateCredential :: "jsval \<Rightarrow> jsval \<Rightarrow> env \<Rightarrow> state \<Rightarrow> response \<times> state" where
  "validateCredential (JStr k) password e s =
     (case Map_get (orders s) (JStr k) of
        None \<Rightarrow> (not_found, s)
      | Some order \<Rightarrow> validate_found k order password e s)"
| "validateCredential oid password e s = (not_found, s)"

definition queryResult :: "string \<Rightarrow> env \<Rightarrow> state \<Rightarrow> response \<times> state" where
  "queryResult oid e s =
     (case Map_get (orders s) (JStr oid) of
        None \<Rightarrow> (not_found, s)
      | Some order \<Rightarrow>
          (let d = random_delay e * 80 + 20
           in (\<lparr>http_status = 200, delay = Some d,
                 body = Envelope True 0 None
                   (QueryData (orderId order) (status order) (amount order) (payTime order))\<rparr>,
               s)))"

definition securityCheck :: "env \<Rightarrow> state \<Rightarrow> response \<times> state" where
  "securityCheck e s =
     (let d = random_delay e * 50 + 10
      in (\<lparr>http_status = 200, delay = Some d,
            body = Envelope True 0 (Some msg_security) (SecurityData True ''low'')\<rparr>, s))"

definition stats :: "state \<Rightarrow> response \<times> state" where
  "stats s =
     (\<lparr>http_status = 200, delay = None,
       body = StatsBody (Map_size (orders s)) (Map_size (payments s))
                (real (Map_size (payments s)) / real (max (Map_size (orders s)) 1))\<rparr>, s)"

subsection \<open>Sequences of requests\<close>

datatype request =
    CreateOrder create_body env
  | GetOrderInfo string env
  | ValidateCredential jsval jsval env
  | QueryResult string env
  | SecurityCheck env
  | Stats

fun handle :: "request \<Rightarrow> state \<Rightarrow> response \<times> state" where
  "handle (CreateOrder b e) s = createOrder b e s"
| "handle (GetOrderInfo oid e) s = getOrderInfo oid e s"
| "handle (ValidateCredential oid pw e) s = validateCredential oid pw e s"
| "handle (QueryResult oid e) s = queryResult oid e s"
| "handle (SecurityCheck e) s = securityCheck e s"
| "handle Stats s = stats s"

fun run :: "state \<Rightarrow> request list \<Rightarrow> state" where
  "run s [] = s"
| "run s (r # rs) = run (snd (handle r s)) rs"

subsection \<open>Reading responses and stores\<close>

text \<open>The \<^verbatim>\<open>success\<close> flag of a response; the statistics object has none.\<close>

fun accepted :: "response \<Rightarrow> bool" where
  "accepted r = (case body r of Envelope ok c m d \<Rightarrow> ok | StatsBody n m q \<Rightarrow> False)"

fun code_of :: "response \<Rightarrow> nat option" where
  "code_of r = (case body r of Envelope ok c m d \<Rightarrow> Some c | StatsBody n m q \<Rightarrow> None)"

fun data_of :: "response \<Rightarrow> data" where
  "data_of r = (case body r of Envelope ok c m d \<Rightarrow> d | StatsBody n m q \<Rightarrow> NoData)"

text \<open>The order stored under an identifier.\<close>

definition stored_order :: "state \<Rightarrow> string \<Rightarrow> order option" where
  "stored_order s k = Map_get (orders s) (JStr k)"

definition stored_payment :: "state \<Rightarrow> string \<Rightarrow> payment option" where
  "stored_payment s k = Map_get (payments s) (JStr k)"

text \<open>The payment records that reference an order.\<close>

definition payments_of :: "state \<Rightarrow> string \<Rightarrow> payment list" where
  "payments_of s k = filter (\<lambda>p. pay_orderId p = k) (map snd (payments s))"

text \<open>\<^verbatim>\<open>payTime\<close> is present on exactly the orders with status \<^verbatim>\<open>success\<close>.\<close>

definition payTime_iff_success :: "state \<Rightarrow> bool" where
  "payTime_iff_success s = list_all (\<lambda>(k, ord). (payTime ord \<noteq> None) = (status ord = Success)) (orders s)"

text \<open>Every stored payment references a stored order.\<close>

definition payments_reference_orders :: "state \<Rightarrow> bool" where
  "payments_reference_orders s =
     list_all (\<lambda>(pid, p). stored_order s (pay_orderId p) \<noteq> None) (payments s)"

text \<open>Every stored payment references a stored order with status \<^verbatim>\<open>success\<close>.\<close>

definition payments_reference_success :: "state \<Rightarrow> bool" where
  "payments_reference_success s =
     list_all (\<lambda>(pid, p). map_option status (stored_order s (pay_orderId p)) = Some Success)
       (payments s)"

text \<open>
  A sequence of requests in which no generated identifier repeats one that is in use: no
  \<^verbatim>\<open>create\<close> generates an \<^verbatim>\<open>orderId\<close> that is already a key of the order store, and no
  accepted \<^verbatim>\<open>validate\<close> generates a \<^verbatim>\<open>paymentId\<close> that is already a key of the payment store.
\<close>

fun fresh_ids :: "state \<Rightarrow> request list \<Rightarrow> bool" where
  "fresh_ids s [] = True"
| "fresh_ids s (CreateOrder b e # rs) =
     (stored_order s (generateOrderId e) = None \<and> fresh_ids (snd (createOrder b e s)) rs)"
| "fresh_ids s (ValidateCredential oid pw e # rs) =
     ((accepted (fst (validateCredential oid pw e s)) \<longrightarrow>
         stored_payment s (''PAY'' @ decimal (Date_now e)) = None)
      \<and> fresh_ids (snd (validateCredential oid pw e s)) rs)"
| "fresh_ids s (r # rs) = fresh_ids (snd (handle r s)) rs"

text \<open>An order has a payment exactly when it is stored with status \<^verbatim>\<open>success\<close>.\<close>

definition payment_iff_success :: "state \<Rightarrow> string \<Rightarrow> bool" where
  "payment_iff_success s k =
     ((payments_of s k \<noteq> []) = (map_option status (stored_order s k) = Some Success))"

text \<open>Keys stay distinct, and a payment is stored only when an order is.\<close>

definition well_formed :: "state \<Rightarrow> bool" where
  "well_formed s = (distinct (map fst (orders s)) \<and> distinct (map fst (payments s))
     \<and> (orders s = [] \<longrightarrow> payments s = []))"

text \<open>Every stored order with status \<^verbatim>\<open>success\<close> is referenced by a stored payment.\<close>

definition success_has_payment :: "state \<Rightarrow> bool" where
  "success_has_payment s =
     list_all (\<lambda>(k, ord). status ord = Success \<longrightarrow> payments_of s k \<noteq> []) (orders s)"

text \<open>
  A sequence of requests in which no \<^verbatim>\<open>validate\<close> is accepted for an order that already
  has status \<^verbatim>\<open>success\<close>.
\<close>

fun no_revalidation :: "state \<Rightarrow> request list \<Rightarrow> bool" where
  "no_revalidation s [] = True"
| "no_revalidation s (ValidateCredential oid pw e # rs) =
     ((accepted (fst (validateCredential oid pw e s)) \<longrightarrow>
         map_option status (Map_get (orders s) oid) \<noteq> Some Success)
      \<and> no_revalidation (snd (validateCredential oid pw e s)) rs)"
| "no_revalidation s (r # rs) = no_revalidation (snd (handle r s)) rs"

text \<open>No order is referenced by more than one stored payment.\<close>

definition at_most_one_payment :: "state \<Rightarrow> bool" where
  "at_most_one_payment s = (\<forall>k. length (payments_of s k) \<le> 1)"

subsection \<open>The sampler of the specification\<close>

text \<open>
  The specification's \<^verbatim>\<open>sample([min,max])\<close>, a duration drawn from the range: the point of
  the range at the fraction \<open>r\<close> of its width, for a reading \<open>r\<close> of the random source.
\<close>

definition spec_sample :: "real \<Rightarrow> real \<Rightarrow> real \<Rightarrow> real" where
  "spec_sample lo hi r = lo + r * (hi - lo)"

subsection \<open>Sample requests\<close>

definition env_a :: env where
  "env_a = \<lparr>Date_now = 1700000000000, new_Date = 1700000000000,
            random_text = ''0.4fzyo82mvyr'', random_fail = 1 / 2, random_delay = 1 / 2\<rparr>"

text \<open>Another sample of the random source in the same millisecond.\<close>

definition env_b :: env where
  "env_b = \<lparr>Date_now = 1700000000000, new_Date = 1700000000000,
            random_text = ''0.4fzyo82mvzz'', random_fail = 1 / 2, random_delay = 1 / 4\<rparr>"

definition env_c :: env where
  "env_c = \<lparr>Date_now = 1700000000400, new_Date = 1700000000400,
            random_text = ''0.k3'', random_fail = 1 / 2, random_delay = 0\<rparr>"

definition env_d :: env where
  "env_d = \<lparr>Date_now = 1700000000900, new_Date = 1700000000900,
            random_text = ''0.9x'', random_fail = 3 / 4, random_delay = 3 / 4\<rparr>"

text \<open>A reading of the random source below 0.05: the injected failure.\<close>

definition env_fail :: env where
  "env_fail = \<lparr>Date_now = 1700000000400, new_Date = 1700000000400,
            random_text = ''0.k3'', random_fail = 1 / 100, random_delay = 1 / 2\<rparr>"

definition body_empty :: create_body where
  "body_empty = \<lparr>b_amount = JUndefined, b_subject = JUndefined, b_bankCard = JUndefined\<rparr>"

definition body_falsy :: create_body where
  "body_falsy = \<lparr>b_amount = JNum 0, b_subject = JStr [], b_bankCard = JStr []\<rparr>"

definition body_100 :: create_body where
  "body_100 = \<lparr>b_amount = JNum 100, b_subject = JStr ''mouse'', b_bankCard = JStr ''****0001''\<rparr>"

definition id_a :: string where
  "id_a = ''ORDER17000000000004fzyo82mv''"

definition order_a :: order where
  "order_a = \<lparr>orderId = id_a, amount = JNum 100, subject = JStr ''mouse'',
              bankCard = JStr ''****0001'', bankName = default_bankName, status = Pending,
              createTime = 1700000000000, payTime = None\<rparr>"

text \<open>The store after one order was created.\<close>

definition state_a :: state where
  "state_a = \<lparr>orders = [(id_a, order_a)], payments = []\<rparr>"

text \<open>One order, validated successfully twice, in different milliseconds.\<close>

definition run_twice :: "request list" where
  "run_twice = [CreateOrder body_100 env_a,
                ValidateCredential (JStr id_a) (JStr ''123456'') env_c,
                ValidateCredential (JStr id_a) (JStr ''123456'') env_d]"

definition id_c :: string where
  "id_c = ''ORDER1700000000400k3''"

text \<open>Two orders, each validated successfully, both in the same millisecond.\<close>

definition run_same_ms :: "request list" where
  "run_same_ms = [CreateOrder body_100 env_a,
                  CreateOrder body_100 env_c,
                  ValidateCredential (JStr id_a) (JStr ''123456'') env_d,
                  ValidateCredential (JStr id_c) (JStr ''123456'') env_d]"

definition payment_c :: payment where
  "payment_c = \<lparr>paymentId = ''PAY1700000000400'', pay_orderId = id_a,
            pay_amount = JNum 100, pay_status = Success,
            pay_payTime = Some 1700000000400\<rparr>"

definition payment_d :: payment where
  "payment_d = \<lparr>paymentId = ''PAY1700000000900'', pay_orderId = id_a,
            pay_amount = JNum 100, pay_status = Success,
            pay_payTime = Some 1700000000900\<rparr>"

definition order_c :: order where
  "order_c = \<lparr>orderId = id_c, amount = JNum 100, subject = JStr ''mouse'',
              bankCard = JStr ''****0001'', bankName = default_bankName, status = Pending,
              createTime = 1700000000400, payTime = None\<rparr>"

section \<open>Properties\<close>

subsection \<open>The stores as association lists\<close>

lemma set_Map_set: "set (Map_set k v m) \<subseteq> insert (k, v) (set m)"
  unfolding Map_set_def by (induction m) auto

lemma map_of_Map_set: "map_of (Map_set k v m) = (map_of m)(k \<mapsto> v)"
  by (simp add: Map_set_def update_conv')

lemma length_Map_set_fresh: "map_of m k = None \<Longrightarrow> length (Map_set k v m) = Suc (length m)"
  unfolding Map_set_def by (induction m) (auto split: if_splits)

lemma length_Map_set_old: "map_of m k = Some w \<Longrightarrow> length (Map_set k v m) = length m"
  unfolding Map_set_def by (induction m) (auto split: if_splits)

lemma distinct_Map_set: "distinct (map fst m) \<Longrightarrow> distinct (map fst (Map_set k v m))"
  by (simp add: Map_set_def distinct_update)

lemma Map_set_nonempty: "Map_set k v m \<noteq> []"
  by (simp add: Map_set_def)

subsection \<open>The sample requests, evaluated\<close>

lemma generateOrderId_env_a: "generateOrderId env_a = id_a"
  by (simp add: generateOrderId_def env_a_def id_a_def decimal.simps digit_char_def substr_def)

lemma generateOrderId_env_b: "generateOrderId env_b = id_a"
  by (simp add: generateOrderId_def env_b_def id_a_def decimal.simps digit_char_def substr_def)

lemma createOrder_state_a: "snd (createOrder body_100 env_a init) = state_a"
  by (simp add: createOrder_def Let_def generateOrderId_env_a body_100_def init_def state_a_def
      order_a_def Map_set_def js_or_def) (simp add: env_a_def)

lemma createOrder_empty_a:
  "createOrder body_empty env_a init =
       (\<lparr>http_status = 200, delay = Some 125,
         body = Envelope True 0 (Some msg_created)
           (OrderData \<lparr>orderId = id_a, amount = JNum 579, subject = JStr default_subject,
              bankCard = JStr ''****7061'', bankName = default_bankName, status = Pending,
              createTime = 1700000000000, payTime = None\<rparr>)\<rparr>,
        \<lparr>orders = [(id_a, \<lparr>orderId = id_a, amount = JNum 579, subject = JStr default_subject,
              bankCard = JStr ''****7061'', bankName = default_bankName, status = Pending,
              createTime = 1700000000000, payTime = None\<rparr>)], payments = []\<rparr>)"
  by (simp add: createOrder_def Let_def generateOrderId_env_a body_empty_def init_def
      Map_set_def js_or_def) (simp add: env_a_def)

lemma createOrder_100_b:
  "createOrder body_100 env_b state_a =
       (\<lparr>http_status = 200, delay = Some (175 / 2),
         body = Envelope True 0 (Some msg_created) (OrderData order_a)\<rparr>, state_a)"
  by (simp add: createOrder_def Let_def generateOrderId_env_b body_100_def state_a_def
      Map_set_def js_or_def order_a_def) (simp add: env_b_def)

subsection \<open>Creating an order\<close>

text \<open>
  C5, as amended. \<^verbatim>\<open>create\<close> never fails: for every body, every reading of the environment
  and every store it answers 200 with \<^verbatim>\<open>success: true, code: 0\<close> and the new order, whose
  \<^verbatim>\<open>orderId\<close> is the text built by \<open>generateOrderId\<close>, whose unset (undefined) fields have
  the defaults 579, the demo subject and \<^verbatim>\<open>****7061\<close>, whose set (truthy) fields are those of
  the body, with the fixed bank name, status \<^verbatim>\<open>pending\<close>, the creation time and no
  \<^verbatim>\<open>payTime\<close>; the order is stored under its \<^verbatim>\<open>orderId\<close>, all other orders and all payments
  are as before. The identifier is not compared with the store: when no stored order has
  it, the store grows by one order; when one has, that order is replaced and the size
  stays.
\<close>

theorem createOrder_returns:
  "\<exists>ord. createOrder b e s =
           (\<lparr>http_status = 200, delay = Some (random_delay e * 150 + 50),
             body = Envelope True 0 (Some msg_created) (OrderData ord)\<rparr>,
            s\<lparr>orders := Map_set (orderId ord) ord (orders s)\<rparr>)
        \<and> orderId ord = generateOrderId e
        \<and> (b_amount b = JUndefined \<longrightarrow> amount ord = JNum 579)
        \<and> (b_subject b = JUndefined \<longrightarrow> subject ord = JStr default_subject)
        \<and> (b_bankCard b = JUndefined \<longrightarrow> bankCard ord = JStr ''****7061'')
        \<and> (truthy (b_amount b) \<longrightarrow> amount ord = b_amount b)
        \<and> (truthy (b_subject b) \<longrightarrow> subject ord = b_subject b)
        \<and> (truthy (b_bankCard b) \<longrightarrow> bankCard ord = b_bankCard b)
        \<and> bankName ord = default_bankName
        \<and> status ord = Pending
        \<and> createTime ord = new_Date e
        \<and> payTime ord = None
        \<and> stored_order (snd (createOrder b e s)) (orderId ord) = Some ord
        \<and> (\<forall>k. k \<noteq> orderId ord \<longrightarrow> stored_order (snd (createOrder b e s)) k = stored_order s k)
        \<and> (stored_order s (orderId ord) = None \<longrightarrow>
             Map_size (orders (snd (createOrder b e s))) = Suc (Map_size (orders s)))
        \<and> (stored_order s (orderId ord) \<noteq> None \<longrightarrow>
             Map_size (orders (snd (createOrder b e s))) = Map_size (orders s))
        \<and> payments (snd (createOrder b e s)) = payments s"
  by (auto simp add: createOrder_def Let_def stored_order_def map_of_Map_set js_or_def Map_size_def
      length_Map_set_fresh length_Map_set_old)

theorem createOrder_returns_witness:
  "b_amount body_empty = JUndefined \<and> b_subject body_empty = JUndefined
   \<and> b_bankCard body_empty = JUndefined \<and> stored_order init id_a = None
   \<and> Map_size (orders (snd (createOrder body_empty env_a init))) = Suc (Map_size (orders init))
   \<and> truthy (b_amount body_100) \<and> truthy (b_subject body_100) \<and> truthy (b_bankCard body_100)
   \<and> stored_order state_a id_a \<noteq> None
   \<and> data_of (fst (createOrder body_100 env_b state_a)) = OrderData order_a
   \<and> Map_size (orders (snd (createOrder body_100 env_b state_a))) = Map_size (orders state_a)"
proof -
  have h: "b_amount body_empty = JUndefined" "b_subject body_empty = JUndefined"
    "b_bankCard body_empty = JUndefined" "stored_order init id_a = None"
    "truthy (b_amount body_100)" "truthy (b_subject body_100)" "truthy (b_bankCard body_100)"
    "stored_order state_a id_a \<noteq> None"
    by (simp_all add: body_empty_def body_100_def stored_order_def init_def state_a_def)
  from createOrder_returns [of body_empty env_a init] h(4)
  have 1: "Map_size (orders (snd (createOrder body_empty env_a init))) = Suc (Map_size (orders init))"
    by (auto simp only: generateOrderId_env_a)
  from createOrder_returns [of body_100 env_b state_a] h(8)
  have 2: "Map_size (orders (snd (createOrder body_100 env_b state_a))) = Map_size (orders state_a)"
    by (auto simp only: generateOrderId_env_b)
  have 3: "data_of (fst (createOrder body_100 env_b state_a)) = OrderData order_a"
    by (simp add: createOrder_100_b)
  from h 1 2 3 show ?thesis by simp
qed

text \<open>
  C5 as stated fails where it promises a fresh identifier: two requests in the same
  millisecond whose random samples differ, but agree in the nine characters that are
  used, get the same \<^verbatim>\<open>orderId\<close>; the second order replaces the first.
\<close>

theorem createOrder_fresh_counterexample:
  "random_text env_b \<noteq> random_text env_a
   \<and> stored_order (snd (createOrder body_100 env_a init)) (generateOrderId env_b) = Some order_a
   \<and> Map_size (orders (run init [CreateOrder body_100 env_a, CreateOrder body_100 env_b])) = 1"
proof -
  have "random_text env_b \<noteq> random_text env_a"
    by (simp add: env_a_def env_b_def)
  moreover have "stored_order (snd (createOrder body_100 env_a init)) (generateOrderId env_b) = Some order_a"
    by (simp add: createOrder_state_a generateOrderId_env_b) (simp add: state_a_def stored_order_def)
  moreover have "run init [CreateOrder body_100 env_a, CreateOrder body_100 env_b] = state_a"
    by (simp add: createOrder_state_a createOrder_100_b)
  then have "Map_size (orders (run init [CreateOrder body_100 env_a, CreateOrder body_100 env_b])) = 1"
    by (simp add: state_a_def Map_size_def)
  ultimately show ?thesis by simp
qed

subsection \<open>Falsy fields\<close>

text \<open>
  C9. \<^verbatim>\<open>create\<close> takes the default for a field whenever the field is falsy, not only when
  it is missing: a zero amount, an empty subject or an empty bank card (and any other
  falsy value) gives 579, the demo subject or \<^verbatim>\<open>****7061\<close>, in the order that is returned
  and in the one that is stored.
\<close>

theorem createOrder_falsy_defaults:
  "\<exists>ord. data_of (fst (createOrder b e s)) = OrderData ord
        \<and> stored_order (snd (createOrder b e s)) (orderId ord) = Some ord
        \<and> (b_amount b = JNum 0 \<longrightarrow> amount ord = JNum 579)
        \<and> (b_subject b = JStr [] \<longrightarrow> subject ord = JStr default_subject)
        \<and> (b_bankCard b = JStr [] \<longrightarrow> bankCard ord = JStr ''****7061'')
        \<and> (\<not> truthy (b_amount b) \<longrightarrow> amount ord = JNum 579)
        \<and> (\<not> truthy (b_subject b) \<longrightarrow> subject ord = JStr default_subject)
        \<and> (\<not> truthy (b_bankCard b) \<longrightarrow> bankCard ord = JStr ''****7061'')"
  by (simp add: createOrder_def Let_def stored_order_def map_of_Map_set js_or_def)

theorem createOrder_falsy_defaults_witness:
  "b_amount body_falsy = JNum 0 \<and> b_subject body_falsy = JStr [] \<and> b_bankCard body_falsy = JStr []
   \<and> data_of (fst (createOrder body_falsy env_a init)) =
       OrderData \<lparr>orderId = id_a, amount = JNum 579, subject = JStr default_subject,
                  bankCard = JStr ''****7061'', bankName = default_bankName, status = Pending,
                  createTime = 1700000000000, payTime = None\<rparr>
   \<and> stored_order (snd (createOrder body_falsy env_a init)) id_a =
       Some \<lparr>orderId = id_a, amount = JNum 579, subject = JStr default_subject,
                  bankCard = JStr ''****7061'', bankName = default_bankName, status = Pending,
                  createTime = 1700000000000, payTime = None\<rparr>"
proof -
  obtain ord where o: "data_of (fst (createOrder body_falsy env_a init)) = OrderData ord"
    "stored_order (snd (createOrder body_falsy env_a init)) (orderId ord) = Some ord"
    "b_amount body_falsy = JNum 0 \<longrightarrow> amount ord = JNum 579"
    "b_subject body_falsy = JStr [] \<longrightarrow> subject ord = JStr default_subject"
    "b_bankCard body_falsy = JStr [] \<longrightarrow> bankCard ord = JStr ''****7061''"
    using createOrder_falsy_defaults [of body_falsy env_a init] by blast
  have b: "b_amount body_falsy = JNum 0" "b_subject body_falsy = JStr []"
    "b_bankCard body_falsy = JStr []"
    by (simp_all add: body_falsy_def)
  have d: "data_of (fst (createOrder body_falsy env_a init)) =
       OrderData \<lparr>orderId = id_a, amount = amount ord, subject = subject ord,
                  bankCard = bankCard ord, bankName = default_bankName, status = Pending,
                  createTime = 1700000000000, payTime = None\<rparr>"
    using o(1) by (simp add: createOrder_def Let_def generateOrderId_env_a) (auto simp add: env_a_def)
  with o b show ?thesis by auto
qed

subsection \<open>Unknown orders\<close>

text \<open>
  C4. The routes \<^verbatim>\<open>info\<close>, \<^verbatim>\<open>query\<close> and \<^verbatim>\<open>validate\<close>, asked for an \<^verbatim>\<open>orderId\<close> that is not a
  key of the order store, answer 404 with \<^verbatim>\<open>success: false, code: 404\<close> and leave the stores
  alone, whatever the stores hold. The answer is sent by the handler itself, with no
  delay, and for \<^verbatim>\<open>validate\<close> it is the same for every password and every reading of the
  clock and the random source: nothing was sampled.
\<close>

theorem unknown_order_not_found:
  "(stored_order s k = None \<longrightarrow>
      getOrderInfo k e s = (not_found, s) \<and> queryResult k e s = (not_found, s))
   \<and> (Map_get (orders s) oid = None \<longrightarrow>
      validateCredential oid pw e s = (not_found, s)
      \<and> validateCredential oid pw e s = validateCredential oid pw' e' s)
   \<and> http_status not_found = 404 \<and> \<not> accepted not_found \<and> code_of not_found = Some 404
   \<and> delay not_found = None"
  by (cases oid) (simp_all add: getOrderInfo_def queryResult_def stored_order_def not_found_def)

theorem unknown_order_not_found_witness:
  "stored_order state_a ''ORDER1'' = None
   \<and> Map_get (orders state_a) (JStr ''ORDER1'') = None
   \<and> getOrderInfo ''ORDER1'' env_c state_a = (not_found, state_a)
   \<and> queryResult ''ORDER1'' env_c state_a = (not_found, state_a)
   \<and> validateCredential (JStr ''ORDER1'') (JStr ''123456'') env_c state_a = (not_found, state_a)
   \<and> Map_get (orders state_a) (JNum 7) = None
   \<and> validateCredential (JNum 7) (JStr ''123456'') env_c state_a = (not_found, state_a)"
proof -
  have h: "stored_order state_a ''ORDER1'' = None"
    "Map_get (orders state_a) (JStr ''ORDER1'') = None"
    "Map_get (orders state_a) (JNum 7) = None"
    by (simp_all add: stored_order_def state_a_def id_a_def)
  from h unknown_order_not_found [of state_a "''ORDER1''" env_c "JStr ''ORDER1''" "JStr ''123456''"]
    unknown_order_not_found [of state_a "''ORDER1''" env_c "JNum 7" "JStr ''123456''"]
  show ?thesis by blast
qed

subsection \<open>Routes that only read\<close>

text \<open>
  C10. \<^verbatim>\<open>info\<close>, \<^verbatim>\<open>query\<close>, the security check and the statistics leave both stores exactly
  as they were. A request that changes a store is a \<^verbatim>\<open>create\<close>, or a \<^verbatim>\<open>validate\<close> that was
  accepted.
\<close>

theorem read_routes_keep_stores:
  "snd (getOrderInfo k e s) = s \<and> snd (queryResult k e s) = s
   \<and> snd (securityCheck e s) = s \<and> snd (stats s) = s
   \<and> (snd (handle r s) \<noteq> s \<longrightarrow>
        (\<exists>b e'. r = CreateOrder b e')
        \<or> (\<exists>oid pw e'. r = ValidateCredential oid pw e' \<and> accepted (fst (handle r s))))"
proof -
  have info: "snd (getOrderInfo k' e' s) = s" for k' e'
    by (simp add: getOrderInfo_def Let_def split: option.splits)
  have query: "snd (queryResult k' e' s) = s" for k' e'
    by (simp add: queryResult_def Let_def split: option.splits)
  have sec: "snd (securityCheck e' s) = s" for e'
    by (simp add: securityCheck_def Let_def)
  have st: "snd (stats s) = s"
    by (simp add: stats_def)
  have val: "accepted (fst (validateCredential oid pw e' s))"
    if "snd (validateCredential oid pw e' s) \<noteq> s" for oid pw e'
    using that
    by (cases oid)
      (auto simp add: validate_found_def Let_def not_found_def split: option.splits if_splits)
  have "snd (handle r s) \<noteq> s \<longrightarrow>
        (\<exists>b e'. r = CreateOrder b e')
        \<or> (\<exists>oid pw e'. r = ValidateCredential oid pw e' \<and> accepted (fst (handle r s)))"
    using info query sec st val by (cases r) auto
  with info query sec st show ?thesis by blast
qed

lemma validate_a_c:
  "validateCredential (JStr id_a) (JStr ''123456'') env_c state_a =
     (\<lparr>http_status = 200, delay = Some 100,
       body = Envelope True 0 (Some msg_paid)
         (PaymentData \<lparr>paymentId = ''PAY1700000000400'', pay_orderId = id_a,
            pay_amount = JNum 100, pay_status = Success,
            pay_payTime = Some 1700000000400\<rparr>)\<rparr>,
      \<lparr>orders = [(id_a, order_a\<lparr>status := Success, payTime := Some 1700000000400\<rparr>)],
       payments = [(''PAY1700000000400'',
          \<lparr>paymentId = ''PAY1700000000400'', pay_orderId = id_a,
            pay_amount = JNum 100, pay_status = Success,
            pay_payTime = Some 1700000000400\<rparr>)]\<rparr>)"
  by (simp add: state_a_def validate_found_def Let_def env_c_def Map_set_def decimal.simps
      digit_char_def order_a_def)

theorem read_routes_keep_stores_witness:
  "snd (handle (ValidateCredential (JStr id_a) (JStr ''123456'') env_c) state_a) \<noteq> state_a
   \<and> accepted (fst (handle (ValidateCredential (JStr id_a) (JStr ''123456'') env_c) state_a))
   \<and> snd (getOrderInfo id_a env_c state_a) = state_a
   \<and> snd (queryResult id_a env_c state_a) = state_a
   \<and> snd (securityCheck env_c state_a) = state_a
   \<and> snd (stats state_a) = state_a"
proof -
  have "snd (handle (ValidateCredential (JStr id_a) (JStr ''123456'') env_c) state_a) \<noteq> state_a"
    by (simp only: handle.simps validate_a_c snd_conv) (simp add: state_a_def)
  with read_routes_keep_stores
    [of id_a env_c state_a "ValidateCredential (JStr id_a) (JStr ''123456'') env_c"]
  show ?thesis by auto
qed

subsection \<open>Validating a credential\<close>

text \<open>
  C1. For an order stored under \<open>k\<close> and any submitted password, \<^verbatim>\<open>validate\<close> rejects exactly
  when the failure sample is below 0.05 or the password is not the string \<^verbatim>\<open>123456\<close>. A
  rejection answers \<^verbatim>\<open>success: false, code: 1001, data: null\<close> and leaves both stores as
  they were: the order is unchanged and no payment is made. An acceptance sets the stored
  order's status to \<^verbatim>\<open>success\<close> and its \<^verbatim>\<open>payTime\<close>, changes no other order, and stores and
  returns a payment that carries the order's key, the order's amount and the same
  \<^verbatim>\<open>payTime\<close>.
\<close>

theorem validateCredential_decides:
  assumes "stored_order s k = Some ord"
  shows "(\<not> accepted (fst (validateCredential (JStr k) pw e s))
            \<longleftrightarrow> random_fail e < 5 / 100 \<or> pw \<noteq> JStr ''123456'')
     \<and> (random_fail e < 5 / 100 \<or> pw \<noteq> JStr ''123456'' \<longrightarrow>
          validateCredential (JStr k) pw e s =
            (\<lparr>http_status = 200, delay = Some (random_delay e * 400 + 100),
              body = Envelope False 1001 (Some msg_wrong_password) NullData\<rparr>, s))
     \<and> (\<not> random_fail e < 5 / 100 \<and> pw = JStr ''123456'' \<longrightarrow>
          (\<exists>p s'. validateCredential (JStr k) pw e s =
              (\<lparr>http_status = 200, delay = Some (random_delay e * 400 + 100),
                body = Envelope True 0 (Some msg_paid) (PaymentData p)\<rparr>, s')
            \<and> stored_order s' k = Some (ord\<lparr>status := Success, payTime := Some (new_Date e)\<rparr>)
            \<and> (\<forall>k'. k' \<noteq> k \<longrightarrow> stored_order s' k' = stored_order s k')
            \<and> pay_orderId p = k
            \<and> pay_amount p = amount ord
            \<and> pay_payTime p = Some (new_Date e)
            \<and> pay_status p = Success
            \<and> stored_payment s' (paymentId p) = Some p
            \<and> (\<forall>q. q \<noteq> paymentId p \<longrightarrow> stored_payment s' q = stored_payment s q)))"
  using assms
  by (auto simp add: stored_order_def stored_payment_def validate_found_def Let_def
      map_of_Map_set)

lemma validate_a_fail:
  "validateCredential (JStr id_a) (JStr ''123456'') env_fail state_a =
     (\<lparr>http_status = 200, delay = Some 300,
       body = Envelope False 1001 (Some msg_wrong_password) NullData\<rparr>, state_a)"
  by (simp add: state_a_def validate_found_def Let_def env_fail_def)

lemma validate_a_wrong:
  "validateCredential (JStr id_a) (JNum 123456) env_c state_a =
     (\<lparr>http_status = 200, delay = Some 100,
       body = Envelope False 1001 (Some msg_wrong_password) NullData\<rparr>, state_a)"
  by (simp add: state_a_def validate_found_def Let_def env_c_def)

theorem validateCredential_decides_witness:
  "stored_order state_a id_a = Some order_a
   \<and> random_fail env_fail < 5 / 100
   \<and> \<not> accepted (fst (validateCredential (JStr id_a) (JStr ''123456'') env_fail state_a))
   \<and> snd (validateCredential (JStr id_a) (JStr ''123456'') env_fail state_a) = state_a
   \<and> \<not> random_fail env_c < 5 / 100
   \<and> JNum 123456 \<noteq> JStr ''123456''
   \<and> \<not> accepted (fst (validateCredential (JStr id_a) (JNum 123456) env_c state_a))
   \<and> snd (validateCredential (JStr id_a) (JNum 123456) env_c state_a) = state_a
   \<and> accepted (fst (validateCredential (JStr id_a) (JStr ''123456'') env_c state_a))
   \<and> stored_order (snd (validateCredential (JStr id_a) (JStr ''123456'') env_c state_a)) id_a
       = Some (order_a\<lparr>status := Success, payTime := Some 1700000000400\<rparr>)
   \<and> stored_payment (snd (validateCredential (JStr id_a) (JStr ''123456'') env_c state_a))
        ''PAY1700000000400''
       = Some \<lparr>paymentId = ''PAY1700000000400'', pay_orderId = id_a,
            pay_amount = JNum 100, pay_status = Success,
            pay_payTime = Some 1700000000400\<rparr>"
proof -
  have h: "stored_order state_a id_a = Some order_a"
    by (simp add: stored_order_def state_a_def)
  have r: "random_fail env_fail < 5 / 100" "\<not> random_fail env_c < 5 / 100"
    by (simp_all add: env_fail_def env_c_def)
  note t1 = validateCredential_decides [OF h, of "JStr ''123456''" env_fail]
  note t2 = validateCredential_decides [OF h, of "JNum 123456" env_c]
  note t3 = validateCredential_decides [OF h, of "JStr ''123456''" env_c]
  have 1: "\<not> accepted (fst (validateCredential (JStr id_a) (JStr ''123456'') env_fail state_a))"
    "snd (validateCredential (JStr id_a) (JStr ''123456'') env_fail state_a) = state_a"
    using t1 r(1) by simp_all
  have 2: "\<not> accepted (fst (validateCredential (JStr id_a) (JNum 123456) env_c state_a))"
    "snd (validateCredential (JStr id_a) (JNum 123456) env_c state_a) = state_a"
    using t2 by simp_all
  have 3: "accepted (fst (validateCredential (JStr id_a) (JStr ''123456'') env_c state_a))"
    using t3 r(2) by simp
  have 4: "stored_order (snd (validateCredential (JStr id_a) (JStr ''123456'') env_c state_a)) id_a
       = Some (order_a\<lparr>status := Success, payTime := Some 1700000000400\<rparr>)"
    "stored_payment (snd (validateCredential (JStr id_a) (JStr ''123456'') env_c state_a))
        ''PAY1700000000400''
       = Some \<lparr>paymentId = ''PAY1700000000400'', pay_orderId = id_a,
            pay_amount = JNum 100, pay_status = Success,
            pay_payTime = Some 1700000000400\<rparr>"
    by (simp_all only: validate_a_c snd_conv) (simp_all add: stored_order_def stored_payment_def)
  from h r 1 2 3 4 show ?thesis by simp
qed

subsection \<open>Delays\<close>

lemma spec_sample_bounds:
  "lo \<le> hi \<Longrightarrow> is_random r \<Longrightarrow> lo \<le> spec_sample lo hi r \<and> spec_sample lo hi r \<le> hi"
proof -
  assume a: "lo \<le> hi" "is_random r"
  then have "0 \<le> r * (hi - lo)" by (simp add: is_random_def)
  moreover have "r * (hi - lo) \<le> 1 * (hi - lo)"
    using a by (intro mult_right_mono) (simp_all add: is_random_def)
  ultimately show ?thesis by (simp add: spec_sample_def)
qed

lemma spec_sample_onto:
  assumes "lo < hi" "lo \<le> d" "d < hi"
  shows "\<exists>!r. is_random r \<and> spec_sample lo hi r = d"
proof
  show "is_random ((d - lo) / (hi - lo)) \<and> spec_sample lo hi ((d - lo) / (hi - lo)) = d"
    using assms by (simp add: is_random_def spec_sample_def)
next
  fix r assume "is_random r \<and> spec_sample lo hi r = d"
  then have "r * (hi - lo) = d - lo" by (simp add: spec_sample_def)
  then show "r = (d - lo) / (hi - lo)" using assms by (simp add: field_simps)
qed

lemma spec_sample_increment:
  "spec_sample lo hi (r + h) - spec_sample lo hi r = h * (hi - lo)"
  by (simp add: spec_sample_def algebra_simps)

text \<open>The delay of each route, when it schedules its answer.\<close>

lemma delay_createOrder:
  "delay (fst (createOrder b e s)) = Some (spec_sample 50 200 (random_delay e))"
  by (simp add: createOrder_def Let_def spec_sample_def)

lemma delay_getOrderInfo:
  "stored_order s k \<noteq> None \<Longrightarrow>
   delay (fst (getOrderInfo k e s)) = Some (spec_sample 30 130 (random_delay e))"
  by (auto simp add: getOrderInfo_def stored_order_def Let_def spec_sample_def)

lemma delay_validateCredential:
  "Map_get (orders s) oid \<noteq> None \<Longrightarrow>
   delay (fst (validateCredential oid pw e s)) = Some (spec_sample 100 500 (random_delay e))"
  by (cases oid) (auto simp add: validate_found_def Let_def spec_sample_def)

lemma delay_queryResult:
  "stored_order s k \<noteq> None \<Longrightarrow>
   delay (fst (queryResult k e s)) = Some (spec_sample 20 100 (random_delay e))"
  by (auto simp add: queryResult_def stored_order_def Let_def spec_sample_def)

lemma delay_securityCheck:
  "delay (fst (securityCheck e s)) = Some (spec_sample 10 60 (random_delay e))"
  by (simp add: securityCheck_def Let_def spec_sample_def)

text \<open>
  C8. With a reading \<open>r\<close> of \<^verbatim>\<open>Math.random()\<close>, \<open>0 \<le> r < 1\<close>, every route that delays its
  answer delays it by the specification's sample of its documented range at \<open>r\<close>, and
  that value lies in the closed range: \<^verbatim>\<open>create\<close> in [50,200], \<^verbatim>\<open>info\<close> in [30,130],
  \<^verbatim>\<open>validate\<close> in [100,500], \<^verbatim>\<open>query\<close> in [20,100], the security check in [10,60]
  (\<^verbatim>\<open>info\<close>, \<^verbatim>\<open>validate\<close> and \<^verbatim>\<open>query\<close> for a stored order; their 404 answer has no delay).
  The sample is uniform over the range as far as the random source is uniform: it is
  affine in \<open>r\<close>, so equal steps of \<open>r\<close> are equal steps of the delay, and every duration of
  the range below its upper end is the delay of exactly one reading.
\<close>

theorem delays_in_documented_ranges:
  assumes "is_random (random_delay e)"
  shows "(\<exists>d. delay (fst (createOrder b e s)) = Some d
              \<and> d = spec_sample 50 200 (random_delay e) \<and> 50 \<le> d \<and> d \<le> 200)
     \<and> (stored_order s k \<noteq> None \<longrightarrow>
          (\<exists>d. delay (fst (getOrderInfo k e s)) = Some d
              \<and> d = spec_sample 30 130 (random_delay e) \<and> 30 \<le> d \<and> d \<le> 130))
     \<and> (Map_get (orders s) oid \<noteq> None \<longrightarrow>
          (\<exists>d. delay (fst (validateCredential oid pw e s)) = Some d
              \<and> d = spec_sample 100 500 (random_delay e) \<and> 100 \<le> d \<and> d \<le> 500))
     \<and> (stored_order s k \<noteq> None \<longrightarrow>
          (\<exists>d. delay (fst (queryResult k e s)) = Some d
              \<and> d = spec_sample 20 100 (random_delay e) \<and> 20 \<le> d \<and> d \<le> 100))
     \<and> (\<exists>d. delay (fst (securityCheck e s)) = Some d
              \<and> d = spec_sample 10 60 (random_delay e) \<and> 10 \<le> d \<and> d \<le> 60)
     \<and> (\<forall>lo hi r h. spec_sample lo hi (r + h) - spec_sample lo hi r = h * (hi - lo))
     \<and> (\<forall>lo hi d. lo < hi \<and> lo \<le> d \<and> d < hi \<longrightarrow>
          (\<exists>!r. is_random r \<and> spec_sample lo hi r = d))"
proof -
  have b: "lo \<le> spec_sample lo hi (random_delay e) \<and> spec_sample lo hi (random_delay e) \<le> hi"
    if "lo \<le> hi" for lo hi
    using that assms by (rule spec_sample_bounds)
  have 1: "\<exists>d. delay (fst (createOrder b e s)) = Some d
              \<and> d = spec_sample 50 200 (random_delay e) \<and> 50 \<le> d \<and> d \<le> 200"
    using b [of 50 200] by (simp add: delay_createOrder)
  have 2: "stored_order s k \<noteq> None \<longrightarrow>
          (\<exists>d. delay (fst (getOrderInfo k e s)) = Some d
              \<and> d = spec_sample 30 130 (random_delay e) \<and> 30 \<le> d \<and> d \<le> 130)"
    using b [of 30 130] by (simp add: delay_getOrderInfo)
  have 3: "Map_get (orders s) oid \<noteq> None \<longrightarrow>
          (\<exists>d. delay (fst (validateCredential oid pw e s)) = Some d
              \<and> d = spec_sample 100 500 (random_delay e) \<and> 100 \<le> d \<and> d \<le> 500)"
    using b [of 100 500] by (simp add: delay_validateCredential)
  have 4: "stored_order s k \<noteq> None \<longrightarrow>
          (\<exists>d. delay (fst (queryResult k e s)) = Some d
              \<and> d = spec_sample 20 100 (random_delay e) \<and> 20 \<le> d \<and> d \<le> 100)"
    using b [of 20 100] by (simp add: delay_queryResult)
  have 5: "\<exists>d. delay (fst (securityCheck e s)) = Some d
              \<and> d = spec_sample 10 60 (random_delay e) \<and> 10 \<le> d \<and> d \<le> 60"
    using b [of 10 60] by (simp add: delay_securityCheck)
  have 6: "\<forall>lo hi r h. spec_sample lo hi (r + h) - spec_sample lo hi r = h * (hi - lo)"
    by (simp add: spec_sample_increment)
  have 7: "\<forall>lo hi d. lo < hi \<and> lo \<le> d \<and> d < hi \<longrightarrow>
          (\<exists>!r. is_random r \<and> spec_sample lo hi r = d)"
    using spec_sample_onto by blast
  from 1 2 3 4 5 6 7 show ?thesis by blast
qed

theorem delays_in_documented_ranges_witness:
  "is_random (random_delay env_a)
   \<and> stored_order state_a id_a \<noteq> None
   \<and> Map_get (orders state_a) (JStr id_a) \<noteq> None
   \<and> delay (fst (createOrder body_100 env_a state_a)) = Some 125
   \<and> delay (fst (getOrderInfo id_a env_a state_a)) = Some 80
   \<and> delay (fst (validateCredential (JStr id_a) (JStr ''123456'') env_a state_a)) = Some 300
   \<and> delay (fst (queryResult id_a env_a state_a)) = Some 60
   \<and> delay (fst (securityCheck env_a state_a)) = Some 35
   \<and> is_random 0 \<and> spec_sample 50 200 0 = 50"
proof -
  have h: "is_random (random_delay env_a)" "stored_order state_a id_a \<noteq> None"
    "Map_get (orders state_a) (JStr id_a) \<noteq> None"
    by (simp_all add: is_random_def env_a_def stored_order_def state_a_def)
  have v: "spec_sample 50 200 (random_delay env_a) = 125"
    "spec_sample 30 130 (random_delay env_a) = 80"
    "spec_sample 100 500 (random_delay env_a) = 300"
    "spec_sample 20 100 (random_delay env_a) = 60"
    "spec_sample 10 60 (random_delay env_a) = 35"
    "is_random 0" "spec_sample 50 200 0 = 50"
    by (simp_all add: spec_sample_def env_a_def is_random_def)
  from delays_in_documented_ranges
    [OF h(1), of body_100 state_a id_a "JStr id_a" "JStr ''123456''"] h v
  show ?thesis by auto
qed

subsection \<open>What a request does to the stores\<close>

text \<open>A step leaves the stores alone, or stores one order, or settles a stored order.\<close>

lemma validate_found_shape:
  "snd (validate_found k ord pw e s) = s
   \<or> snd (validate_found k ord pw e s) =
       \<lparr>orders = Map_set k (ord\<lparr>status := Success, payTime := Some (new_Date e)\<rparr>) (orders s),
        payments = Map_set (''PAY'' @ decimal (Date_now e))
          \<lparr>paymentId = ''PAY'' @ decimal (Date_now e), pay_orderId = k,
            pay_amount = amount ord, pay_status = Success,
            pay_payTime = Some (new_Date e)\<rparr> (payments s)\<rparr>"
  by (simp add: validate_found_def Let_def)

lemma handle_shape:
  "snd (handle r s) = s
   \<or> (\<exists>b e ord. r = CreateOrder b e \<and> status ord = Pending \<and> payTime ord = None
        \<and> snd (handle r s) = s\<lparr>orders := Map_set (generateOrderId e) ord (orders s)\<rparr>)
   \<or> (\<exists>k pw e ord p. r = ValidateCredential (JStr k) pw e \<and> map_of (orders s) k = Some ord
        \<and> pay_orderId p = k
        \<and> snd (handle r s) =
            \<lparr>orders = Map_set k (ord\<lparr>status := Success, payTime := Some (new_Date e)\<rparr>) (orders s),
             payments = Map_set (''PAY'' @ decimal (Date_now e)) p (payments s)\<rparr>)"
proof (cases r)
  case (CreateOrder b e)
  let ?ord = "\<lparr>orderId = generateOrderId e,
                amount = js_or (b_amount b) (JNum 579),
                subject = js_or (b_subject b) (JStr default_subject),
                bankCard = js_or (b_bankCard b) (JStr ''****7061''),
                bankName = default_bankName, status = Pending,
                createTime = new_Date e, payTime = None\<rparr>"
  have "status ?ord = Pending \<and> payTime ?ord = None
        \<and> snd (handle r s) = s\<lparr>orders := Map_set (generateOrderId e) ?ord (orders s)\<rparr>"
    by (simp add: CreateOrder createOrder_def Let_def)
  with CreateOrder show ?thesis by blast
next
  case (GetOrderInfo k e)
  then show ?thesis by (simp add: getOrderInfo_def Let_def split: option.splits)
next
  case v: (ValidateCredential oid pw e)
  show ?thesis
  proof (cases "Map_get (orders s) oid")
    case None
    with v have "snd (handle r s) = s" by (cases oid) simp_all
    then show ?thesis by blast
  next
    case (Some ord)
    then obtain k where k: "oid = JStr k" "map_of (orders s) k = Some ord"
      by (cases oid) simp_all
    with v have "snd (handle r s) = snd (validate_found k ord pw e s)" by simp
    with validate_found_shape [of k ord pw e s] v k show ?thesis
      by (metis payment.select_convs(2))
  qed
next
  case (QueryResult k e)
  then show ?thesis by (simp add: queryResult_def Let_def split: option.splits)
next
  case (SecurityCheck e)
  then show ?thesis by (simp add: securityCheck_def Let_def)
next
  case Stats
  then show ?thesis by (simp add: stats_def)
qed


lemma well_formed_init: "well_formed init"
  by (simp add: well_formed_def init_def)

lemma well_formed_handle: "well_formed s \<Longrightarrow> well_formed (snd (handle r s))"
  using handle_shape [of r s]
  by (auto simp add: well_formed_def distinct_Map_set Map_set_nonempty)

lemma well_formed_run: "well_formed s \<Longrightarrow> well_formed (run s rs)"
  by (induction rs arbitrary: s) (simp_all add: well_formed_handle)

lemma length_card_keys: "distinct (map fst m) \<Longrightarrow> length m = card (dom (map_of m))"
proof -
  assume d: "distinct (map fst m)"
  have "card (dom (map_of m)) = card (set (map fst m))"
    by (simp add: dom_map_of_conv_image_fst)
  also have "\<dots> = length (map fst m)" using d by (rule distinct_card)
  finally show ?thesis by simp
qed

subsection \<open>Statistics\<close>

text \<open>
  C7. After any sequence of requests on the empty stores, the statistics route answers at
  once (no delay) with \<^verbatim>\<open>totalOrders\<close> the number of stored orders, \<^verbatim>\<open>totalPayments\<close> the
  number of stored payments and \<^verbatim>\<open>successRate\<close> their quotient with the divisor raised to
  at least 1; with no order stored the rate is 0.
\<close>

theorem stats_counts:
  "fst (stats (run init rs)) =
     \<lparr>http_status = 200, delay = None,
      body = StatsBody (card (dom (map_of (orders (run init rs)))))
               (card (dom (map_of (payments (run init rs)))))
               (real (card (dom (map_of (payments (run init rs)))))
                 / real (max (card (dom (map_of (orders (run init rs))))) 1))\<rparr>
   \<and> (card (dom (map_of (orders (run init rs)))) = 0 \<longrightarrow>
        successRate (body (fst (stats (run init rs)))) = 0)
   \<and> successRate (body (fst (stats init))) = 0"
proof -
  let ?s = "run init rs"
  have wf: "well_formed ?s"
    by (rule well_formed_run [OF well_formed_init])
  then have n: "Map_size (orders ?s) = card (dom (map_of (orders ?s)))"
    and m: "Map_size (payments ?s) = card (dom (map_of (payments ?s)))"
    by (simp_all add: well_formed_def Map_size_def length_card_keys)
  have 1: "fst (stats ?s) =
     \<lparr>http_status = 200, delay = None,
      body = StatsBody (card (dom (map_of (orders ?s))))
               (card (dom (map_of (payments ?s))))
               (real (card (dom (map_of (payments ?s))))
                 / real (max (card (dom (map_of (orders ?s)))) 1))\<rparr>"
    by (simp add: stats_def n m)
  have "payments ?s = []" if "card (dom (map_of (orders ?s))) = 0"
  proof -
    from that n have "orders ?s = []" by (simp add: Map_size_def)
    with wf show ?thesis by (simp add: well_formed_def)
  qed
  then have 2: "card (dom (map_of (orders ?s))) = 0 \<longrightarrow>
        successRate (body (fst (stats ?s))) = 0"
    by (simp add: stats_def Map_size_def)
  have 3: "successRate (body (fst (stats init))) = 0"
    by (simp add: stats_def init_def Map_size_def)
  from 1 2 3 show ?thesis by blast
qed

theorem stats_counts_witness:
  "card (dom (map_of (orders (run init [])))) = 0
   \<and> fst (stats (run init [])) = \<lparr>http_status = 200, delay = None, body = StatsBody 0 0 0\<rparr>
   \<and> fst (stats (run init [CreateOrder body_100 env_a])) =
       \<lparr>http_status = 200, delay = None, body = StatsBody 1 0 0\<rparr>
   \<and> fst (stats (run init [CreateOrder body_100 env_a,
              ValidateCredential (JStr id_a) (JStr ''123456'') env_c])) =
       \<lparr>http_status = 200, delay = None, body = StatsBody 1 1 1\<rparr>"
proof -
  have r0: "run init [] = init" by simp
  have r1: "run init [CreateOrder body_100 env_a] = state_a"
    by (simp add: createOrder_state_a)
  have r2: "run init [CreateOrder body_100 env_a,
              ValidateCredential (JStr id_a) (JStr ''123456'') env_c] =
      \<lparr>orders = [(id_a, order_a\<lparr>status := Success, payTime := Some 1700000000400\<rparr>)],
       payments = [(''PAY1700000000400'',
          \<lparr>paymentId = ''PAY1700000000400'', pay_orderId = id_a,
            pay_amount = JNum 100, pay_status = Success,
            pay_payTime = Some 1700000000400\<rparr>)]\<rparr>"
    by (simp only: run.simps handle.simps createOrder_state_a validate_a_c snd_conv)
  have c0: "card (dom (map_of (orders init))) = 0" by (simp add: init_def)
  from stats_counts [of "[]"] c0
  have 0: "fst (stats (run init [])) = \<lparr>http_status = 200, delay = None, body = StatsBody 0 0 0\<rparr>"
    by (simp add: init_def)
  from stats_counts [of "[CreateOrder body_100 env_a]"]
  have 1: "fst (stats (run init [CreateOrder body_100 env_a])) =
       \<lparr>http_status = 200, delay = None, body = StatsBody 1 0 0\<rparr>"
    unfolding r1 by (simp add: state_a_def)
  from stats_counts [of "[CreateOrder body_100 env_a,
              ValidateCredential (JStr id_a) (JStr ''123456'') env_c]"]
  have 2: "fst (stats (run init [CreateOrder body_100 env_a,
              ValidateCredential (JStr id_a) (JStr ''123456'') env_c])) =
       \<lparr>http_status = 200, delay = None, body = StatsBody 1 1 1\<rparr>"
    unfolding r2 by simp
  from c0 0 1 2 show ?thesis by simp
qed

subsection \<open>The time of payment\<close>

lemma list_all_Map_set: "P (k, v) \<Longrightarrow> list_all P m \<Longrightarrow> list_all P (Map_set k v m)"
  using set_Map_set [of k v m] by (auto simp add: list_all_iff)

lemma payTime_iff_success_handle:
  "payTime_iff_success s \<Longrightarrow> payTime_iff_success (snd (handle r s))"
  using handle_shape [of r s]
  by (auto simp add: payTime_iff_success_def intro!: list_all_Map_set)

lemma payTime_iff_success_run:
  "payTime_iff_success s \<Longrightarrow> payTime_iff_success (run s rs)"
  by (induction rs arbitrary: s) (simp_all add: payTime_iff_success_handle)

lemma payTime_iff_success_stored:
  "payTime_iff_success s \<Longrightarrow> stored_order s k = Some ord \<Longrightarrow>
   (payTime ord \<noteq> None) = (status ord = Success)"
  by (auto simp add: payTime_iff_success_def stored_order_def list_all_iff dest!: map_of_SomeD)

lemma stored_after_handle:
  "stored_order (snd (handle r s)) k = Some ord' \<Longrightarrow>
     stored_order s k = Some ord'
     \<or> (status ord' = Pending \<and> payTime ord' = None)
     \<or> (status ord' = Success \<and> payTime ord' \<noteq> None)"
  using handle_shape [of r s]
  by (auto simp add: stored_order_def map_of_Map_set split: if_splits)

text \<open>
  C3. In every state reached from the empty stores, a stored order has a \<^verbatim>\<open>payTime\<close>
  exactly when its status is \<^verbatim>\<open>success\<close>. The property holds of the empty stores and every
  request preserves it. \<^verbatim>\<open>create\<close> stores its order as \<^verbatim>\<open>pending\<close> without \<^verbatim>\<open>payTime\<close>; and
  after any request, an order that is new or changed under its key is either \<^verbatim>\<open>pending\<close>
  without \<^verbatim>\<open>payTime\<close> or \<^verbatim>\<open>success\<close> with one: the two fields are set in the same step.
\<close>

theorem payTime_present_iff_success:
  "payTime_iff_success init
   \<and> (payTime_iff_success s \<longrightarrow> payTime_iff_success (snd (handle r s)))
   \<and> payTime_iff_success (run init rs)
   \<and> (\<forall>k ord. stored_order (run init rs) k = Some ord \<longrightarrow>
         (payTime ord \<noteq> None) = (status ord = Success))
   \<and> (\<exists>ord. data_of (fst (createOrder b e s)) = OrderData ord
         \<and> stored_order (snd (createOrder b e s)) (orderId ord) = Some ord
         \<and> status ord = Pending \<and> payTime ord = None)
   \<and> (\<forall>k ord'. stored_order (snd (handle r s)) k = Some ord' \<longrightarrow>
         stored_order s k = Some ord'
         \<or> (status ord' = Pending \<and> payTime ord' = None)
         \<or> (status ord' = Success \<and> payTime ord' \<noteq> None))"
proof -
  have 1: "payTime_iff_success init"
    by (simp add: payTime_iff_success_def init_def)
  have 2: "payTime_iff_success s \<longrightarrow> payTime_iff_success (snd (handle r s))"
    by (simp add: payTime_iff_success_handle)
  have 3: "payTime_iff_success (run init rs)"
    using 1 by (rule payTime_iff_success_run)
  have 4: "\<forall>k ord. stored_order (run init rs) k = Some ord \<longrightarrow>
         (payTime ord \<noteq> None) = (status ord = Success)"
    using 3 payTime_iff_success_stored by blast
  have 5: "\<exists>ord. data_of (fst (createOrder b e s)) = OrderData ord
         \<and> stored_order (snd (createOrder b e s)) (orderId ord) = Some ord
         \<and> status ord = Pending \<and> payTime ord = None"
    by (simp add: createOrder_def Let_def stored_order_def map_of_Map_set)
  have 6: "\<forall>k ord'. stored_order (snd (handle r s)) k = Some ord' \<longrightarrow>
         stored_order s k = Some ord'
         \<or> (status ord' = Pending \<and> payTime ord' = None)
         \<or> (status ord' = Success \<and> payTime ord' \<noteq> None)"
    using stored_after_handle by blast
  from 1 2 3 4 5 6 show ?thesis by blast
qed

lemma run_a_c:
  "run init [CreateOrder body_100 env_a,
             ValidateCredential (JStr id_a) (JStr ''123456'') env_c] =
      \<lparr>orders = [(id_a, order_a\<lparr>status := Success, payTime := Some 1700000000400\<rparr>)],
       payments = [(''PAY1700000000400'',
          \<lparr>paymentId = ''PAY1700000000400'', pay_orderId = id_a,
            pay_amount = JNum 100, pay_status = Success,
            pay_payTime = Some 1700000000400\<rparr>)]\<rparr>"
  by (simp only: run.simps handle.simps createOrder_state_a validate_a_c snd_conv)

theorem payTime_present_iff_success_witness:
  "payTime_iff_success state_a
   \<and> payTime_iff_success (snd (handle (ValidateCredential (JStr id_a) (JStr ''123456'') env_c) state_a))
   \<and> stored_order (run init [CreateOrder body_100 env_a,
             ValidateCredential (JStr id_a) (JStr ''123456'') env_c]) id_a
       = Some (order_a\<lparr>status := Success, payTime := Some 1700000000400\<rparr>)
   \<and> payTime (order_a\<lparr>status := Success, payTime := Some 1700000000400\<rparr>) \<noteq> None
   \<and> status (order_a\<lparr>status := Success, payTime := Some 1700000000400\<rparr>) = Success
   \<and> stored_order (run init [CreateOrder body_100 env_a]) id_a = Some order_a
   \<and> payTime order_a = None \<and> status order_a = Pending"
proof -
  have a: "payTime_iff_success state_a"
    by (simp add: payTime_iff_success_def state_a_def order_a_def)
  have s2: "stored_order (run init [CreateOrder body_100 env_a,
             ValidateCredential (JStr id_a) (JStr ''123456'') env_c]) id_a
       = Some (order_a\<lparr>status := Success, payTime := Some 1700000000400\<rparr>)"
    by (simp only: run_a_c) (simp add: stored_order_def)
  have s1: "stored_order (run init [CreateOrder body_100 env_a]) id_a = Some order_a"
    by (simp add: createOrder_state_a) (simp add: stored_order_def state_a_def)
  note t = payTime_present_iff_success
    [of state_a "ValidateCredential (JStr id_a) (JStr ''123456'') env_c"
       "[CreateOrder body_100 env_a, ValidateCredential (JStr id_a) (JStr ''123456'') env_c]"]
  note u = payTime_present_iff_success
    [of state_a "ValidateCredential (JStr id_a) (JStr ''123456'') env_c"
       "[CreateOrder body_100 env_a]"]
  from t a have b:
    "payTime_iff_success (snd (handle (ValidateCredential (JStr id_a) (JStr ''123456'') env_c) state_a))"
    by blast
  from t s2 have c: "(payTime (order_a\<lparr>status := Success, payTime := Some 1700000000400\<rparr>) \<noteq> None)
      = (status (order_a\<lparr>status := Success, payTime := Some 1700000000400\<rparr>) = Success)"
    by blast
  from u s1 have d: "(payTime order_a \<noteq> None) = (status order_a = Success)"
    by blast
  have e: "status (order_a\<lparr>status := Success, payTime := Some 1700000000400\<rparr>) = Success"
    "status order_a = Pending"
    by (simp_all add: order_a_def)
  from a b c d e s1 s2 show ?thesis by simp
qed

subsection \<open>Payments and settled orders\<close>

lemma set_Map_set_fresh: "map_of m k = None \<Longrightarrow> set (Map_set k v m) = insert (k, v) (set m)"
  unfolding Map_set_def by (induction m) (auto split: if_splits)

text \<open>The two directions, on the entries of the stores.\<close>


lemma payments_of_iff:
  "payments_of s k \<noteq> [] \<longleftrightarrow> (\<exists>pid p. (pid, p) \<in> set (payments s) \<and> pay_orderId p = k)"
  by (force simp add: payments_of_def filter_empty_conv)

lemma fresh_ids_handle:
  "fresh_ids s (r # rs) \<Longrightarrow> fresh_ids (snd (handle r s)) rs"
  by (cases r) simp_all


lemma mem_Map_set: "(k, v) \<in> set (Map_set k v m)"
  by (rule map_of_SomeD) (simp add: map_of_Map_set)

lemma references_success_iff:
  "payments_reference_success s \<longleftrightarrow>
     (\<forall>pid p. (pid, p) \<in> set (payments s) \<longrightarrow>
        (\<exists>ord. map_of (orders s) (pay_orderId p) = Some ord \<and> status ord = Success))"
  by (auto simp add: payments_reference_success_def list_all_iff stored_order_def)

lemma success_has_payment_iff:
  "success_has_payment s \<longleftrightarrow>
     (\<forall>k ord. (k, ord) \<in> set (orders s) \<longrightarrow> status ord = Success \<longrightarrow>
        (\<exists>pid p. (pid, p) \<in> set (payments s) \<and> pay_orderId p = k))"
  by (auto simp add: success_has_payment_def list_all_iff payments_of_iff)

text \<open>Storing an order under an unused key keeps both directions.\<close>

lemma settled_store_order:
  assumes A: "payments_reference_success s" and B: "success_has_payment s"
    and fresh: "map_of (orders s) k = None" and pend: "status ord = Pending"
  shows "payments_reference_success (s\<lparr>orders := Map_set k ord (orders s)\<rparr>)
       \<and> success_has_payment (s\<lparr>orders := Map_set k ord (orders s)\<rparr>)"
proof -
  have 1: "payments_reference_success (s\<lparr>orders := Map_set k ord (orders s)\<rparr>)"
    unfolding references_success_iff
  proof (intro allI impI)
    fix pid p assume "(pid, p) \<in> set (payments (s\<lparr>orders := Map_set k ord (orders s)\<rparr>))"
    then have "(pid, p) \<in> set (payments s)" by simp
    with A obtain o' where o': "map_of (orders s) (pay_orderId p) = Some o'" "status o' = Success"
      unfolding references_success_iff by blast
    with fresh have "pay_orderId p \<noteq> k" by auto
    with o' show "\<exists>ord'. map_of (orders (s\<lparr>orders := Map_set k ord (orders s)\<rparr>)) (pay_orderId p)
        = Some ord' \<and> status ord' = Success"
      by (simp add: map_of_Map_set)
  qed
  have 2: "success_has_payment (s\<lparr>orders := Map_set k ord (orders s)\<rparr>)"
    unfolding success_has_payment_iff
  proof (intro allI impI)
    fix k' o' assume m: "(k', o') \<in> set (orders (s\<lparr>orders := Map_set k ord (orders s)\<rparr>))"
      and st: "status o' = Success"
    from m set_Map_set [of k ord "orders s"] have "(k', o') = (k, ord) \<or> (k', o') \<in> set (orders s)"
      by auto
    with st pend have "(k', o') \<in> set (orders s)" by auto
    with B st show "\<exists>pid p. (pid, p) \<in> set (payments (s\<lparr>orders := Map_set k ord (orders s)\<rparr>))
        \<and> pay_orderId p = k'"
      unfolding success_has_payment_iff by simp
  qed
  from 1 2 show ?thesis by blast
qed

text \<open>Settling a stored order with a payment under an unused key keeps both directions.\<close>

lemma settled_store_payment:
  assumes A: "payments_reference_success s" and B: "success_has_payment s"
    and fresh: "map_of (payments s) pid = None"
    and succ: "status ord = Success" and ref: "pay_orderId p = k"
  shows "payments_reference_success
           \<lparr>orders = Map_set k ord (orders s), payments = Map_set pid p (payments s)\<rparr>
       \<and> success_has_payment
           \<lparr>orders = Map_set k ord (orders s), payments = Map_set pid p (payments s)\<rparr>"
proof -
  let ?s' = "\<lparr>orders = Map_set k ord (orders s), payments = Map_set pid p (payments s)\<rparr>"
  have pset: "set (payments ?s') = insert (pid, p) (set (payments s))"
    using fresh by (simp add: set_Map_set_fresh)
  have 1: "payments_reference_success ?s'"
    unfolding references_success_iff
  proof (intro allI impI)
    fix pid' p' assume "(pid', p') \<in> set (payments ?s')"
    with pset have "(pid', p') = (pid, p) \<or> (pid', p') \<in> set (payments s)" by auto
    then show "\<exists>ord'. map_of (orders ?s') (pay_orderId p') = Some ord' \<and> status ord' = Success"
    proof
      assume "(pid', p') = (pid, p)"
      with succ ref show ?thesis by (simp add: map_of_Map_set)
    next
      assume "(pid', p') \<in> set (payments s)"
      with A obtain o' where "map_of (orders s) (pay_orderId p') = Some o'" "status o' = Success"
        unfolding references_success_iff by blast
      with succ show ?thesis by (simp add: map_of_Map_set)
    qed
  qed
  have 2: "success_has_payment ?s'"
    unfolding success_has_payment_iff
  proof (intro allI impI)
    fix k' o' assume m: "(k', o') \<in> set (orders ?s')" and st: "status o' = Success"
    from m set_Map_set [of k ord "orders s"] have "(k', o') = (k, ord) \<or> (k', o') \<in> set (orders s)"
      by auto
    then show "\<exists>pid' p'. (pid', p') \<in> set (payments ?s') \<and> pay_orderId p' = k'"
    proof
      assume "(k', o') = (k, ord)"
      with ref pset show ?thesis by auto
    next
      assume "(k', o') \<in> set (orders s)"
      with B st obtain pid' p' where "(pid', p') \<in> set (payments s)" "pay_orderId p' = k'"
        unfolding success_has_payment_iff by blast
      with pset show ?thesis by auto
    qed
  qed
  from 1 2 show ?thesis by blast
qed

lemma settled_handle:
  assumes inv: "payments_reference_success s \<and> success_has_payment s"
    and fresh: "fresh_ids s (r # rs)"
  shows "payments_reference_success (snd (handle r s)) \<and> success_has_payment (snd (handle r s))"
proof (cases r)
  case (CreateOrder b e)
  with fresh have f: "map_of (orders s) (generateOrderId e) = None"
    by (simp add: stored_order_def)
  let ?ord = "\<lparr>orderId = generateOrderId e,
                amount = js_or (b_amount b) (JNum 579),
                subject = js_or (b_subject b) (JStr default_subject),
                bankCard = js_or (b_bankCard b) (JStr ''****7061''),
                bankName = default_bankName, status = Pending,
                createTime = new_Date e, payTime = None\<rparr>"
  have "snd (handle r s) = s\<lparr>orders := Map_set (generateOrderId e) ?ord (orders s)\<rparr>"
    by (simp add: CreateOrder createOrder_def Let_def)
  moreover have "status ?ord = Pending" by simp
  ultimately show ?thesis
    using settled_store_order [OF conjunct1 [OF inv] conjunct2 [OF inv] f] by simp
next
  case (GetOrderInfo k e)
  with inv show ?thesis by (simp add: getOrderInfo_def Let_def split: option.splits)
next
  case v: (ValidateCredential oid pw e)
  show ?thesis
  proof (cases "snd (handle r s) = s")
    case True
    with inv show ?thesis by simp
  next
    case False
    with v have ch: "snd (validateCredential oid pw e s) \<noteq> s" by simp
    then obtain k ord where k: "oid = JStr k" "map_of (orders s) k = Some ord"
      by (cases oid) (auto split: option.splits)
    with ch have vf: "snd (validate_found k ord pw e s) \<noteq> s" by simp
    then have acc: "accepted (fst (validate_found k ord pw e s))"
      by (auto simp add: validate_found_def Let_def split: if_splits)
    with fresh v k have f: "map_of (payments s) (''PAY'' @ decimal (Date_now e)) = None"
      by (simp add: stored_payment_def)
    from vf validate_found_shape [of k ord pw e s]
    have "snd (validate_found k ord pw e s) =
       \<lparr>orders = Map_set k (ord\<lparr>status := Success, payTime := Some (new_Date e)\<rparr>) (orders s),
        payments = Map_set (''PAY'' @ decimal (Date_now e))
          \<lparr>paymentId = ''PAY'' @ decimal (Date_now e), pay_orderId = k,
            pay_amount = amount ord, pay_status = Success,
            pay_payTime = Some (new_Date e)\<rparr> (payments s)\<rparr>"
      by blast
    moreover have "snd (handle r s) = snd (validate_found k ord pw e s)"
      using v k by simp
    ultimately show ?thesis
      using settled_store_payment [OF conjunct1 [OF inv] conjunct2 [OF inv] f,
          of "ord\<lparr>status := Success, payTime := Some (new_Date e)\<rparr>"
             "\<lparr>paymentId = ''PAY'' @ decimal (Date_now e), pay_orderId = k,
            pay_amount = amount ord, pay_status = Success,
            pay_payTime = Some (new_Date e)\<rparr>" k]
      by simp
  qed
next
  case (QueryResult k e)
  with inv show ?thesis by (simp add: queryResult_def Let_def split: option.splits)
next
  case (SecurityCheck e)
  with inv show ?thesis by (simp add: securityCheck_def Let_def)
next
  case Stats
  with inv show ?thesis by (simp add: stats_def)
qed

lemma settled_run:
  "payments_reference_success s \<and> success_has_payment s \<Longrightarrow> fresh_ids s rs \<Longrightarrow>
   payments_reference_success (run s rs) \<and> success_has_payment (run s rs)"
proof (induction rs arbitrary: s)
  case Nil
  then show ?case by simp
next
  case (Cons r rs)
  from Cons.prems have "payments_reference_success (snd (handle r s))
      \<and> success_has_payment (snd (handle r s))"
    by (rule settled_handle)
  moreover from Cons.prems(2) have "fresh_ids (snd (handle r s)) rs"
    by (rule fresh_ids_handle)
  ultimately show ?case using Cons.IH by simp
qed

lemma settled_init: "payments_reference_success init \<and> success_has_payment init"
  by (simp add: payments_reference_success_def success_has_payment_def init_def)

lemma settled_payment_iff_success:
  assumes "payments_reference_success s" "success_has_payment s"
  shows "payment_iff_success s k"
  unfolding payment_iff_success_def
proof
  assume "payments_of s k \<noteq> []"
  then obtain pid p where "(pid, p) \<in> set (payments s)" "pay_orderId p = k"
    unfolding payments_of_iff by blast
  with assms(1) show "map_option status (stored_order s k) = Some Success"
    unfolding references_success_iff by (auto simp add: stored_order_def)
next
  assume "map_option status (stored_order s k) = Some Success"
  then obtain ord where "map_of (orders s) k = Some ord" "status ord = Success"
    by (auto simp add: stored_order_def)
  then have "(k, ord) \<in> set (orders s)" "status ord = Success"
    by (auto dest: map_of_SomeD)
  with assms(2) show "payments_of s k \<noteq> []"
    unfolding success_has_payment_iff payments_of_iff by blast
qed



lemma references_orders_handle:
  "payments_reference_orders s \<Longrightarrow> payments_reference_orders (snd (handle r s))"
proof -
  assume a: "payments_reference_orders s"
  then have old: "map_of (orders s) (pay_orderId p) \<noteq> None" if "(pid, p) \<in> set (payments s)"
    for pid p
    using that by (auto simp add: payments_reference_orders_def list_all_iff stored_order_def)
  from handle_shape [of r s] show ?thesis
  proof (elim disjE exE conjE)
    assume "snd (handle r s) = s"
    with a show ?thesis by simp
  next
    fix b :: create_body and e :: env and ord :: order
    assume "snd (handle r s) = s\<lparr>orders := Map_set (generateOrderId e) ord (orders s)\<rparr>"
    then show ?thesis
      using old
      by (auto simp add: payments_reference_orders_def list_all_iff stored_order_def
          map_of_Map_set)
  next
    fix k :: string and pw :: jsval and e :: env and ord :: order and p :: payment
    assume k: "map_of (orders s) k = Some ord" "pay_orderId p = k"
      and s': "snd (handle r s) =
        \<lparr>orders = Map_set k (ord\<lparr>status := Success, payTime := Some (new_Date e)\<rparr>) (orders s),
         payments = Map_set (''PAY'' @ decimal (Date_now e)) p (payments s)\<rparr>"
    have "map_of (orders (snd (handle r s))) (pay_orderId p') \<noteq> None"
      if "(pid', p') \<in> set (payments (snd (handle r s)))" for pid' p'
    proof -
      from that s' set_Map_set [of "''PAY'' @ decimal (Date_now e)" p "payments s"]
      have "p' = p \<or> (pid', p') \<in> set (payments s)" by auto
      with k old s' show ?thesis by (auto simp add: map_of_Map_set)
    qed
    then show ?thesis
      by (auto simp add: payments_reference_orders_def list_all_iff stored_order_def)
  qed
qed

lemma references_orders_run:
  "payments_reference_orders s \<Longrightarrow> payments_reference_orders (run s rs)"
  by (induction rs arbitrary: s) (simp_all add: references_orders_handle)

lemma validate_a_d_after_c:
  "validateCredential (JStr id_a) (JStr ''123456'') env_d
      \<lparr>orders = [(id_a, order_a\<lparr>status := Success, payTime := Some 1700000000400\<rparr>)],
       payments = [(''PAY1700000000400'', payment_c)]\<rparr> =
     (\<lparr>http_status = 200, delay = Some 400,
       body = Envelope True 0 (Some msg_paid) (PaymentData payment_d)\<rparr>,
      \<lparr>orders = [(id_a, order_a\<lparr>status := Success, payTime := Some 1700000000900\<rparr>)],
       payments = [(''PAY1700000000400'', payment_c), (''PAY1700000000900'', payment_d)]\<rparr>)"
  by (simp add: validate_found_def Let_def env_d_def Map_set_def decimal.simps
      digit_char_def order_a_def payment_d_def)

lemma run_twice_state:
  "run init run_twice =
      \<lparr>orders = [(id_a, order_a\<lparr>status := Success, payTime := Some 1700000000900\<rparr>)],
       payments = [(''PAY1700000000400'', payment_c), (''PAY1700000000900'', payment_d)]\<rparr>"
  unfolding run_twice_def
  by (simp only: run.simps handle.simps createOrder_state_a validate_a_c snd_conv
      payment_c_def [symmetric] validate_a_d_after_c)



lemma id_a_neq_id_c: "id_a \<noteq> id_c"
  by (simp add: id_a_def id_c_def)

lemma generateOrderId_env_c: "generateOrderId env_c = id_c"
  by (simp add: generateOrderId_def env_c_def id_c_def decimal.simps digit_char_def substr_def)

lemma createOrder_c_after_a:
  "snd (createOrder body_100 env_c state_a) =
     \<lparr>orders = [(id_a, order_a), (id_c, order_c)], payments = []\<rparr>"
  using id_a_neq_id_c
  by (simp add: createOrder_def Let_def generateOrderId_env_c body_100_def state_a_def
      order_c_def Map_set_def js_or_def) (simp add: env_c_def)

lemma validate_a_d_two:
  "snd (validateCredential (JStr id_a) (JStr ''123456'') env_d
      \<lparr>orders = [(id_a, order_a), (id_c, order_c)], payments = []\<rparr>) =
      \<lparr>orders = [(id_a, order_a\<lparr>status := Success, payTime := Some 1700000000900\<rparr>),
                 (id_c, order_c)],
       payments = [(''PAY1700000000900'', payment_d)]\<rparr>"
  by (simp add: validate_found_def Let_def env_d_def Map_set_def decimal.simps
      digit_char_def order_a_def payment_d_def)

lemma validate_c_d_two:
  "snd (validateCredential (JStr id_c) (JStr ''123456'') env_d
      \<lparr>orders = [(id_a, order_a\<lparr>status := Success, payTime := Some 1700000000900\<rparr>),
                 (id_c, order_c)],
       payments = [(''PAY1700000000900'', payment_d)]\<rparr>) =
      \<lparr>orders = [(id_a, order_a\<lparr>status := Success, payTime := Some 1700000000900\<rparr>),
                 (id_c, order_c\<lparr>status := Success, payTime := Some 1700000000900\<rparr>)],
       payments = [(''PAY1700000000900'', payment_d\<lparr>pay_orderId := id_c\<rparr>)]\<rparr>"
  using id_a_neq_id_c
  by (simp add: validate_found_def Let_def env_d_def Map_set_def decimal.simps
      digit_char_def order_c_def payment_d_def)

lemma run_same_ms_state:
  "run init run_same_ms =
      \<lparr>orders = [(id_a, order_a\<lparr>status := Success, payTime := Some 1700000000900\<rparr>),
                 (id_c, order_c\<lparr>status := Success, payTime := Some 1700000000900\<rparr>)],
       payments = [(''PAY1700000000900'', payment_d\<lparr>pay_orderId := id_c\<rparr>)]\<rparr>"
  unfolding run_same_ms_def
  by (simp only: run.simps handle.simps createOrder_state_a createOrder_c_after_a
      validate_a_d_two validate_c_d_two)

lemma Map_set_fresh_append: "map_of m k = None \<Longrightarrow> Map_set k v m = m @ [(k, v)]"
  unfolding Map_set_def by (induction m) (auto split: if_splits)

lemma no_revalidation_handle:
  "no_revalidation s (r # rs) \<Longrightarrow> no_revalidation (snd (handle r s)) rs"
  by (cases r) simp_all

text \<open>An accepted validation under an unused payment key appends one payment.\<close>

lemma validate_found_appends:
  assumes acc: "accepted (fst (validate_found k ord pw e s))"
    and fresh: "map_of (payments s) (''PAY'' @ decimal (Date_now e)) = None"
  shows "payments_of (snd (validate_found k ord pw e s)) k' =
     payments_of s k' @
       (if k' = k then [\<lparr>paymentId = ''PAY'' @ decimal (Date_now e), pay_orderId = k,
            pay_amount = amount ord, pay_status = Success,
            pay_payTime = Some (new_Date e)\<rparr>] else [])"
proof -
  from acc have "snd (validate_found k ord pw e s) =
       \<lparr>orders = Map_set k (ord\<lparr>status := Success, payTime := Some (new_Date e)\<rparr>) (orders s),
        payments = Map_set (''PAY'' @ decimal (Date_now e))
          \<lparr>paymentId = ''PAY'' @ decimal (Date_now e), pay_orderId = k,
            pay_amount = amount ord, pay_status = Success,
            pay_payTime = Some (new_Date e)\<rparr> (payments s)\<rparr>"
    by (auto simp add: validate_found_def Let_def split: if_splits)
  with fresh show ?thesis
    by (auto simp add: payments_of_def Map_set_fresh_append)
qed

lemma at_most_one_handle:
  assumes A: "payments_reference_success s" and B: "success_has_payment s"
    and C: "at_most_one_payment s"
    and fresh: "fresh_ids s (r # rs)" and once: "no_revalidation s (r # rs)"
  shows "at_most_one_payment (snd (handle r s))"
proof (cases "snd (handle r s) = s")
  case True
  with C show ?thesis by simp
next
  case False
  from handle_shape [of r s] False show ?thesis
  proof (elim disjE exE conjE)
    assume "snd (handle r s) = s"
    with False show ?thesis by simp
  next
    fix b :: create_body and e :: env and ord :: order
    assume "snd (handle r s) = s\<lparr>orders := Map_set (generateOrderId e) ord (orders s)\<rparr>"
    with C show ?thesis by (simp add: at_most_one_payment_def payments_of_def)
  next
    fix k :: string and pw :: jsval and e :: env and ord :: order and p :: payment
    assume r: "r = ValidateCredential (JStr k) pw e" and o: "map_of (orders s) k = Some ord"
    from r o have h: "snd (handle r s) = snd (validate_found k ord pw e s)" by simp
    with False have "snd (validate_found k ord pw e s) \<noteq> s" by simp
    then have acc: "accepted (fst (validate_found k ord pw e s))"
      by (auto simp add: validate_found_def Let_def split: if_splits)
    with fresh r o have f: "map_of (payments s) (''PAY'' @ decimal (Date_now e)) = None"
      by (simp add: stored_payment_def)
    from once r o acc have "status ord \<noteq> Success" by simp
    with o have "map_option status (stored_order s k) \<noteq> Some Success"
      by (simp add: stored_order_def)
    with settled_payment_iff_success [OF A B, of k] have none: "payments_of s k = []"
      unfolding payment_iff_success_def by blast
    have "length (payments_of (snd (validate_found k ord pw e s)) k') \<le> 1" for k'
      using validate_found_appends [OF acc f, of k'] none C
      by (auto simp add: at_most_one_payment_def)
    with h show ?thesis by (simp add: at_most_one_payment_def)
  qed
qed

lemma at_most_one_run:
  "payments_reference_success s \<Longrightarrow> success_has_payment s \<Longrightarrow> at_most_one_payment s \<Longrightarrow>
   fresh_ids s rs \<Longrightarrow> no_revalidation s rs \<Longrightarrow> at_most_one_payment (run s rs)"
proof (induction rs arbitrary: s)
  case Nil
  then show ?case by simp
next
  case (Cons r rs)
  from Cons.prems(1,2,4) have AB: "payments_reference_success (snd (handle r s))
      \<and> success_has_payment (snd (handle r s))"
    by (intro settled_handle) simp_all
  moreover from Cons.prems have "at_most_one_payment (snd (handle r s))"
    by (rule at_most_one_handle)
  moreover from Cons.prems(4) have "fresh_ids (snd (handle r s)) rs"
    by (rule fresh_ids_handle)
  moreover from Cons.prems(5) have "no_revalidation (snd (handle r s)) rs"
    by (rule no_revalidation_handle)
  ultimately show ?case using Cons.IH by simp
qed

lemma at_most_one_init: "at_most_one_payment init"
  by (simp add: at_most_one_payment_def payments_of_def init_def)

text \<open>
  C2, as amended. In every state reached from the empty stores, every stored payment
  references a stored order. Over a sequence of requests in which no generated identifier
  repeats one in use (no \<^verbatim>\<open>create\<close> reuses a stored \<^verbatim>\<open>orderId\<close>, no accepted \<^verbatim>\<open>validate\<close>
  reuses a stored \<^verbatim>\<open>paymentId\<close>), an order has a payment exactly when it is stored with
  status \<^verbatim>\<open>success\<close>; and when, besides, no \<^verbatim>\<open>validate\<close> is accepted for an order that
  already has status \<^verbatim>\<open>success\<close>, no order has more than one payment. \<^verbatim>\<open>validate\<close> itself
  does not refuse such an order: every accepted \<^verbatim>\<open>validate\<close> leaves a payment that
  references its order, and one whose \<^verbatim>\<open>paymentId\<close> is not in use adds exactly one payment
  to those of its order and none to those of any other.
\<close>

theorem payment_exists_iff_success:
  "payments_reference_orders (run init rs)
   \<and> (fresh_ids init rs \<longrightarrow> (\<forall>k. payment_iff_success (run init rs) k))
   \<and> (fresh_ids init rs \<and> no_revalidation init rs \<longrightarrow>
        (\<forall>k. length (payments_of (run init rs) k) \<le> 1))
   \<and> (accepted (fst (validateCredential (JStr k) pw e s)) \<longrightarrow>
        payments_of (snd (validateCredential (JStr k) pw e s)) k \<noteq> [])
   \<and> (accepted (fst (validateCredential (JStr k) pw e s))
        \<and> stored_payment s (''PAY'' @ decimal (Date_now e)) = None \<longrightarrow>
        length (payments_of (snd (validateCredential (JStr k) pw e s)) k)
          = Suc (length (payments_of s k))
        \<and> (\<forall>k'. k' \<noteq> k \<longrightarrow>
             payments_of (snd (validateCredential (JStr k) pw e s)) k' = payments_of s k'))"
proof -
  have 1: "payments_reference_orders (run init rs)"
    by (rule references_orders_run) (simp add: payments_reference_orders_def init_def)
  have 2: "fresh_ids init rs \<longrightarrow> (\<forall>k. payment_iff_success (run init rs) k)"
    using settled_run [OF settled_init] settled_payment_iff_success by blast
  have 3: "fresh_ids init rs \<and> no_revalidation init rs \<longrightarrow>
        (\<forall>k. length (payments_of (run init rs) k) \<le> 1)"
    using at_most_one_run [OF conjunct1 [OF settled_init] conjunct2 [OF settled_init]
        at_most_one_init, of rs]
    by (simp add: at_most_one_payment_def)
  have found: "\<exists>ord. map_of (orders s) k = Some ord
      \<and> accepted (fst (validate_found k ord pw e s))
      \<and> validateCredential (JStr k) pw e s = validate_found k ord pw e s"
    if "accepted (fst (validateCredential (JStr k) pw e s))"
    using that by (auto simp add: not_found_def split: option.splits)
  have 4: "accepted (fst (validateCredential (JStr k) pw e s)) \<longrightarrow>
        payments_of (snd (validateCredential (JStr k) pw e s)) k \<noteq> []"
  proof
    assume "accepted (fst (validateCredential (JStr k) pw e s))"
    from found [OF this] obtain ord where o: "map_of (orders s) k = Some ord"
      "accepted (fst (validate_found k ord pw e s))"
      "validateCredential (JStr k) pw e s = validate_found k ord pw e s"
      by blast
    from o(2) have "snd (validate_found k ord pw e s) =
       \<lparr>orders = Map_set k (ord\<lparr>status := Success, payTime := Some (new_Date e)\<rparr>) (orders s),
        payments = Map_set (''PAY'' @ decimal (Date_now e))
          \<lparr>paymentId = ''PAY'' @ decimal (Date_now e), pay_orderId = k,
            pay_amount = amount ord, pay_status = Success,
            pay_payTime = Some (new_Date e)\<rparr> (payments s)\<rparr>"
      by (auto simp add: validate_found_def Let_def split: if_splits)
    with o(3) show "payments_of (snd (validateCredential (JStr k) pw e s)) k \<noteq> []"
      unfolding payments_of_iff using mem_Map_set by fastforce
  qed
  have 5: "accepted (fst (validateCredential (JStr k) pw e s))
        \<and> stored_payment s (''PAY'' @ decimal (Date_now e)) = None \<longrightarrow>
        length (payments_of (snd (validateCredential (JStr k) pw e s)) k)
          = Suc (length (payments_of s k))
        \<and> (\<forall>k'. k' \<noteq> k \<longrightarrow>
             payments_of (snd (validateCredential (JStr k) pw e s)) k' = payments_of s k')"
  proof
    assume a: "accepted (fst (validateCredential (JStr k) pw e s))
        \<and> stored_payment s (''PAY'' @ decimal (Date_now e)) = None"
    from found [OF conjunct1 [OF a]] obtain ord where o:
      "accepted (fst (validate_found k ord pw e s))"
      "validateCredential (JStr k) pw e s = validate_found k ord pw e s"
      by blast
    from a have f: "map_of (payments s) (''PAY'' @ decimal (Date_now e)) = None"
      by (simp add: stored_payment_def)
    show "length (payments_of (snd (validateCredential (JStr k) pw e s)) k)
          = Suc (length (payments_of s k))
        \<and> (\<forall>k'. k' \<noteq> k \<longrightarrow>
             payments_of (snd (validateCredential (JStr k) pw e s)) k' = payments_of s k')"
      unfolding o(2) by (simp add: validate_found_appends [OF o(1) f])
  qed
  from 1 2 3 4 5 show ?thesis by blast
qed

theorem payment_exists_iff_success_witness:
  "fresh_ids init run_twice
   \<and> payments_of (run init run_twice) id_a = [payment_c, payment_d]
   \<and> map_option status (stored_order (run init run_twice) id_a) = Some Success
   \<and> accepted (fst (validateCredential (JStr id_a) (JStr ''123456'') env_c state_a))
   \<and> payments_of (snd (validateCredential (JStr id_a) (JStr ''123456'') env_c state_a)) id_a
       = [payment_c]
   \<and> fresh_ids init [CreateOrder body_100 env_a]
   \<and> payments_of (run init [CreateOrder body_100 env_a]) id_a = []
   \<and> map_option status (stored_order (run init [CreateOrder body_100 env_a]) id_a) = Some Pending
   \<and> fresh_ids init [CreateOrder body_100 env_a,
        ValidateCredential (JStr id_a) (JStr ''123456'') env_c]
   \<and> no_revalidation init [CreateOrder body_100 env_a,
        ValidateCredential (JStr id_a) (JStr ''123456'') env_c]
   \<and> length (payments_of (run init [CreateOrder body_100 env_a,
        ValidateCredential (JStr id_a) (JStr ''123456'') env_c]) id_a) \<le> 1
   \<and> stored_payment state_a (''PAY'' @ decimal (Date_now env_c)) = None
   \<and> length (payments_of (snd (validateCredential (JStr id_a) (JStr ''123456'') env_c state_a))
        id_a) = Suc (length (payments_of state_a id_a))"
proof -
  have f: "fresh_ids init run_twice"
    unfolding run_twice_def
    by (simp only: fresh_ids.simps createOrder_state_a validate_a_c snd_conv fst_conv
        payment_c_def [symmetric] validate_a_d_after_c generateOrderId_env_a)
       (simp add: stored_order_def stored_payment_def init_def state_a_def env_c_def env_d_def
         decimal.simps digit_char_def)
  have f1: "fresh_ids init [CreateOrder body_100 env_a]"
    by (simp add: generateOrderId_env_a stored_order_def init_def)
  have sp: "stored_payment state_a (''PAY'' @ decimal (Date_now env_c)) = None"
    by (simp add: stored_payment_def state_a_def)
  have f2: "fresh_ids init [CreateOrder body_100 env_a,
        ValidateCredential (JStr id_a) (JStr ''123456'') env_c]"
    using sp
    by (simp only: fresh_ids.simps createOrder_state_a generateOrderId_env_a)
       (simp add: stored_order_def init_def)
  have n2: "no_revalidation init [CreateOrder body_100 env_a,
        ValidateCredential (JStr id_a) (JStr ''123456'') env_c]"
    by (simp only: no_revalidation.simps handle.simps createOrder_state_a)
       (simp add: state_a_def order_a_def)
  have p: "payments_of (run init run_twice) id_a = [payment_c, payment_d]"
    by (simp add: run_twice_state payments_of_def payment_c_def payment_d_def)
  have p1: "payments_of (run init [CreateOrder body_100 env_a]) id_a = []"
    by (simp add: createOrder_state_a) (simp add: payments_of_def state_a_def)
  have a: "accepted (fst (validateCredential (JStr id_a) (JStr ''123456'') env_c state_a))"
    by (simp only: validate_a_c fst_conv) simp
  have q: "payments_of (snd (validateCredential (JStr id_a) (JStr ''123456'') env_c state_a)) id_a
       = [payment_c]"
    by (simp only: validate_a_c snd_conv) (simp add: payments_of_def payment_c_def)
  note t = payment_exists_iff_success [of run_twice id_a "JStr ''123456''" env_c state_a]
  note u = payment_exists_iff_success
    [of "[CreateOrder body_100 env_a]" id_a "JStr ''123456''" env_c state_a]
  note w = payment_exists_iff_success
    [of "[CreateOrder body_100 env_a, ValidateCredential (JStr id_a) (JStr ''123456'') env_c]"
        id_a "JStr ''123456''" env_c state_a]
  from t f have "payment_iff_success (run init run_twice) id_a" by blast
  with p have s: "map_option status (stored_order (run init run_twice) id_a) = Some Success"
    by (simp add: payment_iff_success_def)
  from u f1 have "payment_iff_success (run init [CreateOrder body_100 env_a]) id_a" by blast
  with p1 have "map_option status (stored_order (run init [CreateOrder body_100 env_a]) id_a)
      \<noteq> Some Success"
    by (simp add: payment_iff_success_def)
  moreover have "stored_order (run init [CreateOrder body_100 env_a]) id_a = Some order_a"
    by (simp add: createOrder_state_a) (simp add: stored_order_def state_a_def)
  ultimately have s1:
    "map_option status (stored_order (run init [CreateOrder body_100 env_a]) id_a) = Some Pending"
    by (simp add: order_a_def)
  from w f2 n2 have b: "length (payments_of (run init [CreateOrder body_100 env_a,
        ValidateCredential (JStr id_a) (JStr ''123456'') env_c]) id_a) \<le> 1"
    by blast
  from w a sp have c:
    "length (payments_of (snd (validateCredential (JStr id_a) (JStr ''123456'') env_c state_a))
        id_a) = Suc (length (payments_of state_a id_a))"
    by blast
  from f p s a q f1 p1 s1 f2 n2 b sp c show ?thesis by simp
qed

text \<open>
  C2 as stated fails twice. An order validated successfully in two different
  milliseconds has two payments. And of two orders validated successfully in the same
  millisecond, the first has status \<^verbatim>\<open>success\<close> and no payment: the second payment took its
  key.
\<close>

theorem payment_exists_iff_success_counterexample:
  "length (payments_of (run init run_twice) id_a) = 2
   \<and> map_option status (stored_order (run init run_same_ms) id_a) = Some Success
   \<and> payments_of (run init run_same_ms) id_a = []"
  using id_a_neq_id_c
  by (simp add: run_twice_state run_same_ms_state payments_of_def stored_order_def
      payment_c_def payment_d_def)

subsection \<open>Order identifiers\<close>

lemma digit_char_inj: "a < 10 \<Longrightarrow> b < 10 \<Longrightarrow> digit_char a = digit_char b \<Longrightarrow> a = b"
proof -
  assume a: "a < 10" "b < 10" "digit_char a = digit_char b"
  have "distinct ''0123456789''" by simp
  moreover have "a < length ''0123456789''" "b < length ''0123456789''" using a by simp_all
  ultimately show "a = b" using a(3) unfolding digit_char_def
    by (simp only: nth_eq_iff_index_eq)
qed

lemma decimal_nonempty: "decimal n \<noteq> []"
  by (cases "n < 10") (simp_all add: decimal.simps [of n])

lemma decimal_inj: "decimal n = decimal m \<Longrightarrow> n = m"
proof (induction n arbitrary: m rule: decimal.induct)
  case (1 n)
  show ?case
  proof (cases "n < 10")
    case True
    then have dn: "decimal n = [digit_char n]" by (simp add: decimal.simps [of n])
    show ?thesis
    proof (cases "m < 10")
      case m: True
      then have "decimal m = [digit_char m]" by (simp add: decimal.simps [of m])
      with dn "1.prems" have "digit_char n = digit_char m" by simp
      with True m show ?thesis by (rule digit_char_inj)
    next
      case False
      then have "decimal m = decimal (m div 10) @ [digit_char (m mod 10)]"
        by (simp add: decimal.simps [of m])
      with dn "1.prems" decimal_nonempty [of "m div 10"] show ?thesis by simp
    qed
  next
    case False
    then have dn: "decimal n = decimal (n div 10) @ [digit_char (n mod 10)]"
      by (simp add: decimal.simps [of n])
    show ?thesis
    proof (cases "m < 10")
      case True
      then have "decimal m = [digit_char m]" by (simp add: decimal.simps [of m])
      with dn "1.prems" decimal_nonempty [of "n div 10"] show ?thesis by simp
    next
      case m: False
      then have "decimal m = decimal (m div 10) @ [digit_char (m mod 10)]"
        by (simp add: decimal.simps [of m])
      with dn "1.prems" have e: "decimal (n div 10) = decimal (m div 10)"
        "digit_char (n mod 10) = digit_char (m mod 10)" by simp_all
      from "1.IH" [OF False e(1)] have d: "n div 10 = m div 10" .
      have "n mod 10 = m mod 10" using e(2) by (intro digit_char_inj) simp_all
      with d show ?thesis by (metis div_mult_mod_eq)
    qed
  qed
qed

lemma length_decimal: "10 ^ k \<le> n \<Longrightarrow> n < 10 ^ Suc k \<Longrightarrow> length (decimal n) = Suc k"
proof (induction k arbitrary: n)
  case 0
  then show ?case by (simp add: decimal.simps [of n])
next
  case (Suc k)
  define x :: nat where "x = 10 ^ k"
  have x: "1 \<le> x" by (simp add: x_def)
  from Suc.prems have b: "10 * x \<le> n" "n < 10 * (10 * x)" by (simp_all add: x_def)
  from b x have ge: "\<not> n < 10" by arith
  from b have "x \<le> n div 10" "n div 10 < 10 * x" by arith+
  then have "length (decimal (n div 10)) = Suc k"
    unfolding x_def by (intro Suc.IH) simp_all
  with ge show ?case by (simp add: decimal.simps [of n])
qed


text \<open>
  C6, as amended, for order identifiers. \<open>generateOrderId\<close> returns \<^verbatim>\<open>ORDER\<close>, then a time
  component, the decimal text of the millisecond clock, then a random component, at most
  nine characters of the base-36 text of a random sample. Two identifiers generated at
  clock readings with equally many decimal digits (thirteen, for every reading from
  \<open>10\<^sup>1\<^sup>2\<close> up to \<open>10\<^sup>1\<^sup>3\<close>) are equal exactly when the clock readings are equal and the
  random components are equal: an identifier differs from every earlier one of another
  millisecond or another random component, and from no other.
\<close>

theorem generateOrderId_equal_iff:
  "generateOrderId e = ''ORDER'' @ decimal (Date_now e) @ substr (random_text e) 2 9
   \<and> length (substr (random_text e) 2 9) \<le> 9
   \<and> (10 ^ 12 \<le> Date_now e \<and> Date_now e < 10 ^ 13 \<longrightarrow> length (decimal (Date_now e)) = 13)
   \<and> (length (decimal (Date_now e)) = length (decimal (Date_now e')) \<longrightarrow>
        (generateOrderId e = generateOrderId e') =
        (Date_now e = Date_now e'
         \<and> substr (random_text e) 2 9 = substr (random_text e') 2 9))"
proof -
  have 1: "generateOrderId e = ''ORDER'' @ decimal (Date_now e) @ substr (random_text e) 2 9"
    by (simp add: generateOrderId_def)
  have 2: "length (substr (random_text e) 2 9) \<le> 9"
    by (simp add: substr_def)
  have 3: "10 ^ 12 \<le> Date_now e \<and> Date_now e < 10 ^ 13 \<longrightarrow> length (decimal (Date_now e)) = 13"
    using length_decimal [of 12 "Date_now e"] by simp
  have 4: "(generateOrderId e = generateOrderId e') =
        (Date_now e = Date_now e'
         \<and> substr (random_text e) 2 9 = substr (random_text e') 2 9)"
    if len: "length (decimal (Date_now e)) = length (decimal (Date_now e'))"
  proof
    assume "generateOrderId e = generateOrderId e'"
    then have "decimal (Date_now e) @ substr (random_text e) 2 9
        = decimal (Date_now e') @ substr (random_text e') 2 9"
      by (simp add: generateOrderId_def)
    with len have "decimal (Date_now e) = decimal (Date_now e')"
      "substr (random_text e) 2 9 = substr (random_text e') 2 9"
      by simp_all
    then show "Date_now e = Date_now e'
         \<and> substr (random_text e) 2 9 = substr (random_text e') 2 9"
      by (simp add: decimal_inj)
  next
    assume "Date_now e = Date_now e'
         \<and> substr (random_text e) 2 9 = substr (random_text e') 2 9"
    then show "generateOrderId e = generateOrderId e'"
      by (simp add: generateOrderId_def)
  qed
  from 1 2 3 4 show ?thesis by blast
qed

theorem generateOrderId_equal_iff_witness:
  "10 ^ 12 \<le> Date_now env_a \<and> Date_now env_a < 10 ^ 13
   \<and> length (decimal (Date_now env_a)) = length (decimal (Date_now env_c))
   \<and> Date_now env_a \<noteq> Date_now env_c
   \<and> generateOrderId env_a \<noteq> generateOrderId env_c
   \<and> generateOrderId env_a = id_a \<and> generateOrderId env_c = id_c"
proof -
  have r: "10 ^ 12 \<le> Date_now env_a \<and> Date_now env_a < 10 ^ 13"
    "10 ^ 12 \<le> Date_now env_c \<and> Date_now env_c < 10 ^ 13"
    "Date_now env_a \<noteq> Date_now env_c"
    by (simp_all add: env_a_def env_c_def)
  from generateOrderId_equal_iff [of env_a env_c] r(1)
  have la: "length (decimal (Date_now env_a)) = 13" by blast
  from generateOrderId_equal_iff [of env_c env_a] r(2)
  have lc: "length (decimal (Date_now env_c)) = 13" by blast
  from la lc have l: "length (decimal (Date_now env_a)) = length (decimal (Date_now env_c))"
    by simp
  with generateOrderId_equal_iff [of env_a env_c] r(3)
  have "generateOrderId env_a \<noteq> generateOrderId env_c" by blast
  with r l show ?thesis by (simp add: generateOrderId_env_a generateOrderId_env_c)
qed

text \<open>
  C6 as stated fails: two samples of the random source that differ, taken in the same
  millisecond, give the same order identifier.
\<close>

theorem generateOrderId_unique_counterexample:
  "random_text env_a \<noteq> random_text env_b
   \<and> Date_now env_a = Date_now env_b
   \<and> generateOrderId env_b = generateOrderId env_a"
  by (simp add: generateOrderId_env_a generateOrderId_env_b) (simp add: env_a_def env_b_def)

end
